theory Spec2Isabelle
  imports
    Complex_Main
    "HOL-Library.AList"
    "HOL-Library.Char_ord"
    "HOL-Library.List_Lexorder"
begin

section \<open>Python values as the client sees them\<close>

text \<open>
  Everything the client reads from the portal is a decoded JSON document, and everything
  it hands back is built from Python dicts, lists, strings and numbers.  A dict is an
  association list in insertion order (Python dicts iterate in insertion order; keys are
  unique, which the operations below maintain by updating in place).  \<open>JNull\<close> is Python's
  \<open>None\<close>.  Python floats are represented by exact rationals, and arithmetic on them is
  exact.  A string is the list of its code points, and the model covers the strings whose
  code points are below 256.  The parameters of the client's methods have the types of
  their annotations.
\<close>

datatype json =
    JNull
  | JBool bool
  | JInt int
  | JFloat rat
  | JStr string
  | JList "json list"
  | JDict "(string \<times> json) list"

text \<open>
  Exceptions carry their class and the text \<open>str(e)\<close>.  Only the classes the modelled
  code can raise are listed; \<open>Exception\<close> is the class \<open>_make_request\<close> raises itself.
\<close>

datatype exn =
    Exception string
  | AttributeError string
  | KeyError string
  | TypeError string
  | IndexError string

fun str_exn :: "exn \<Rightarrow> string" where
  "str_exn (Exception m) = m"
| "str_exn (AttributeError m) = m"
| "str_exn (KeyError m) = m"
| "str_exn (TypeError m) = m"
| "str_exn (IndexError m) = m"

definition ebind :: "exn + 'a \<Rightarrow> ('a \<Rightarrow> exn + 'b) \<Rightarrow> exn + 'b" where
  "ebind m f = (case m of Inl e \<Rightarrow> Inl e | Inr x \<Rightarrow> f x)"

definition sq :: string where
  "sq = [CHR 0x27]"

fun type_name :: "json \<Rightarrow> string" where
  "type_name JNull = ''NoneType''"
| "type_name (JBool _) = ''bool''"
| "type_name (JInt _) = ''int''"
| "type_name (JFloat _) = ''float''"
| "type_name (JStr _) = ''str''"
| "type_name (JList _) = ''list''"
| "type_name (JDict _) = ''dict''"

text \<open>Truth value testing (\<open>if x:\<close>, \<open>bool(x)\<close>, \<open>x or y\<close>).\<close>

fun truthy :: "json \<Rightarrow> bool" where
  "truthy JNull = False"
| "truthy (JBool b) = b"
| "truthy (JInt i) = (i \<noteq> 0)"
| "truthy (JFloat r) = (r \<noteq> 0)"
| "truthy (JStr s) = (s \<noteq> [])"
| "truthy (JList xs) = (xs \<noteq> [])"
| "truthy (JDict kvs) = (kvs \<noteq> [])"

definition no_attribute :: "json \<Rightarrow> string \<Rightarrow> exn" where
  "no_attribute v a =
     AttributeError (sq @ type_name v @ sq @ '' object has no attribute '' @ sq @ a @ sq)"

text \<open>\<open>v.get(k, dflt)\<close>: only a dict has the method.\<close>

fun py_get :: "json \<Rightarrow> string \<Rightarrow> json \<Rightarrow> exn + json" where
  "py_get (JDict kvs) k dflt = Inr (case map_of kvs k of None \<Rightarrow> dflt | Some v \<Rightarrow> v)"
| "py_get v k dflt = Inl (no_attribute v ''get'')"

text \<open>\<open>v[k]\<close> with a string key \<open>k\<close>.\<close>

fun subscript :: "json \<Rightarrow> string \<Rightarrow> exn + json" where
  "subscript (JDict kvs) k =
     (case map_of kvs k of None \<Rightarrow> Inl (KeyError (sq @ k @ sq)) | Some v \<Rightarrow> Inr v)"
| "subscript (JStr s) k = Inl (TypeError ''string indices must be integers'')"
| "subscript (JList xs) k = Inl (TypeError ''list indices must be integers or slices, not str'')"
| "subscript v k = Inl (TypeError (sq @ type_name v @ sq @ '' object is not subscriptable''))"

text \<open>
  \<open>for x in v\<close>: a list yields its elements, a dict its keys, a string its characters.
\<close>

fun py_iter :: "json \<Rightarrow> exn + json list" where
  "py_iter (JList xs) = Inr xs"
| "py_iter (JDict kvs) = Inr (map (\<lambda>kv. JStr (fst kv)) kvs)"
| "py_iter (JStr s) = Inr (map (\<lambda>c. JStr [c]) s)"
| "py_iter v = Inl (TypeError (sq @ type_name v @ sq @ '' object is not iterable''))"

fun py_len :: "json \<Rightarrow> exn + nat" where
  "py_len (JList xs) = Inr (length xs)"
| "py_len (JDict kvs) = Inr (length kvs)"
| "py_len (JStr s) = Inr (length s)"
| "py_len v = Inl (TypeError (''object of type '' @ sq @ type_name v @ sq @ '' has no len()''))"

text \<open>\<open>[f(x) for x in xs]\<close> where \<open>f\<close> may raise.\<close>

fun emap :: "('a \<Rightarrow> exn + 'b) \<Rightarrow> 'a list \<Rightarrow> exn + 'b list" where
  "emap f [] = Inr []"
| "emap f (x # xs) = ebind (f x) (\<lambda>y. ebind (emap f xs) (\<lambda>ys. Inr (y # ys)))"

text \<open>\<open>xs[:n]\<close> on a list, for any integer \<open>n\<close> (a negative \<open>n\<close> counts from the end).\<close>

definition slice_to :: "'a list \<Rightarrow> int \<Rightarrow> 'a list" where
  "slice_to xs n = (if 0 \<le> n then take (nat n) xs else take (nat (int (length xs) + n)) xs)"

subsection \<open>Strings\<close>

text \<open>The decimal digit \<open>d\<close>, for \<open>d\<close> below ten.\<close>

definition digit_char :: "nat \<Rightarrow> char" where
  "digit_char d = ''0123456789'' ! d"

function str_nat :: "nat \<Rightarrow> string" where
  "str_nat n = (if n < 10 then [digit_char n] else str_nat (n div 10) @ [digit_char (n mod 10)])"
  by pat_completeness auto
termination
  by (relation "measure (\<lambda>n. n)") auto

declare str_nat.simps [simp del]

definition str_int :: "int \<Rightarrow> string" where
  "str_int i = (if i < 0 then CHR ''-'' # str_nat (nat (- i)) else str_nat (nat i))"

text \<open>\<open>sep.join(parts)\<close>.\<close>

fun join :: "string \<Rightarrow> string list \<Rightarrow> string" where
  "join sep [] = []"
| "join sep [p] = p"
| "join sep (p # q # ps) = p @ sep @ join sep (q # ps)"

text \<open>Case mapping of the ASCII letters; the small portal further down uses it.\<close>

definition ascii_upper :: "char \<Rightarrow> char" where
  "ascii_upper c =
     (if CHR ''a'' \<le> c \<and> c \<le> CHR ''z'' then char_of (of_char c - (32::nat)) else c)"

definition ascii_lower :: "char \<Rightarrow> char" where
  "ascii_lower c =
     (if CHR ''A'' \<le> c \<and> c \<le> CHR ''Z'' then char_of (of_char c + (32::nat)) else c)"

text \<open>\<open>sub in s\<close> for strings.\<close>

fun contains :: "string \<Rightarrow> string \<Rightarrow> bool" where
  "contains sub [] = (sub = [])"
| "contains sub (c # cs) = (take (length sub) (c # cs) = sub \<or> contains sub cs)"

text \<open>
  \<open>c.isspace()\<close> for a code point below 256: the ASCII white space, the four separators
  U+001C to U+001F, the next-line control U+0085 and the no-break space U+00A0.
  \<open>s.strip()\<close> removes the white space at both ends.
\<close>

definition is_space :: "char \<Rightarrow> bool" where
  "is_space c = (c \<in> set [CHR '' '', CHR 0x09, CHR 0x0A, CHR 0x0B, CHR 0x0C, CHR 0x0D,
                           CHR 0x1C, CHR 0x1D, CHR 0x1E, CHR 0x1F, CHR 0x85, CHR 0xA0])"

definition strip :: "string \<Rightarrow> string" where
  "strip s = rev (dropWhile is_space (rev (dropWhile is_space s)))"

text \<open>\<open>s.split(sep)\<close> for a one-character separator.\<close>

fun split :: "char \<Rightarrow> string \<Rightarrow> string list" where
  "split sep [] = [[]]"
| "split sep (c # cs) =
     (if c = sep then [] # split sep cs
      else (case split sep cs of [] \<Rightarrow> [[c]] | p # ps \<Rightarrow> (c # p) # ps))"

text \<open>
  The string encoder of \<open>json.dumps\<close> (\<open>encode_basestring_ascii\<close>): the string in double
  quotes, with the quote and the backslash escaped, the five control characters that have
  a short escape, every other code point outside \<open>' '\<close> to \<open>'~'\<close> as \<open>\u00XX\<close>, and the rest as
  it is.
\<close>

definition hex_digit :: "nat \<Rightarrow> char" where
  "hex_digit d = ''0123456789abcdef'' ! d"

definition escape_char :: "char \<Rightarrow> string" where
  "escape_char c =
     (if c = CHR 0x22 then [CHR 0x5C, CHR 0x22]
      else if c = CHR 0x5C then [CHR 0x5C, CHR 0x5C]
      else if c = CHR 0x08 then [CHR 0x5C, CHR ''b'']
      else if c = CHR 0x0C then [CHR 0x5C, CHR ''f'']
      else if c = CHR 0x0A then [CHR 0x5C, CHR ''n'']
      else if c = CHR 0x0D then [CHR 0x5C, CHR ''r'']
      else if c = CHR 0x09 then [CHR 0x5C, CHR ''t'']
      else if CHR '' '' \<le> c \<and> c \<le> CHR ''~'' then [c]
      else [CHR 0x5C, CHR ''u'', CHR ''0'', CHR ''0'',
            hex_digit (of_char c div 16), hex_digit (of_char c mod 16)])"

definition encode_basestring :: "string \<Rightarrow> string" where
  "encode_basestring s = CHR 0x22 # concat (map escape_char s) @ [CHR 0x22]"

section \<open>Library functions and the outside world\<close>

text \<open>
  The client calls into the Python library and onto the network.  These are not code of
  the repository; they are collected in an environment the model is parametric in.
  Among them are the two case mappings \<open>str.upper\<close> and \<open>str.lower\<close>, which follow the
  Unicode tables and can lead out of the code points below 256, and \<open>repr\<close>, which prints a
  float and the values that are neither string nor integer.
\<close>

record request =
  req_method :: string
  req_url :: string
  req_headers :: "(string \<times> string) list"
  req_json :: "(string \<times> json) list option"

text \<open>
  What \<open>session.request\<close> followed by \<open>response.json()\<close> does: raise an
  \<open>aiohttp.ClientError\<close>, raise some other exception, or deliver the decoded body.
\<close>

datatype transport =
    ClientError string
  | OtherError string
  | Body json

record world =
  clock :: rat
  sent :: "request list"

record env =
  md5_hexdigest :: "string \<Rightarrow> string"
  urljoin :: "string \<Rightarrow> string \<Rightarrow> string"
  quote :: "string \<Rightarrow> string"
  repr :: "json \<Rightarrow> string"
  str_upper :: "string \<Rightarrow> string"
  str_lower :: "string \<Rightarrow> string"
  isoformat :: "rat \<Rightarrow> string"
  portal :: "world \<Rightarrow> request \<Rightarrow> rat \<times> transport"

text \<open>\<open>v.upper()\<close> on a dynamically typed value.\<close>

fun upper :: "env \<Rightarrow> json \<Rightarrow> exn + string" where
  "upper E (JStr s) = Inr (str_upper E s)"
| "upper E v = Inl (no_attribute v ''upper'')"

text \<open>
  \<open>str(v)\<close>, as an f-string applies it: a string is itself, an integer its decimal
  digits; every other value prints as its \<open>repr\<close>.
\<close>

definition py_str :: "env \<Rightarrow> json \<Rightarrow> string" where
  "py_str E v =
     (case v of
        JStr s \<Rightarrow> s
      | JInt i \<Rightarrow> str_int i
      | JNull \<Rightarrow> ''None''
      | JBool b \<Rightarrow> (if b then ''True'' else ''False'')
      | _ \<Rightarrow> repr E v)"

text \<open>
  \<open>json.dumps(v, sort_keys=True)\<close> with the default separators: the items of every dict
  are emitted in the order of their keys.
\<close>

function dumps_sorted :: "env \<Rightarrow> json \<Rightarrow> string" where
  "dumps_sorted E JNull = ''null''"
| "dumps_sorted E (JBool b) = (if b then ''true'' else ''false'')"
| "dumps_sorted E (JInt i) = str_int i"
| "dumps_sorted E (JFloat r) = repr E (JFloat r)"
| "dumps_sorted E (JStr s) = encode_basestring s"
| "dumps_sorted E (JList xs) = ''['' @ join '', '' (map (dumps_sorted E) xs) @ '']''"
| "dumps_sorted E (JDict kvs) =
     ''{'' @ join '', ''
        (map (\<lambda>kv. encode_basestring (fst kv) @ '': '' @ dumps_sorted E (snd kv))
           (sort_key fst kvs)) @ ''}''"
  by pat_completeness auto
termination
proof (relation "measure (\<lambda>p. size (snd p))")
  show "wf (measure (\<lambda>p. size (snd p)))" by simp
next
  fix E :: env and xs :: "json list" and x :: json
  assume "x \<in> set xs"
  then have "size x < Suc (size_list size xs)"
    by (induction xs) auto
  then show "((E, x), (E, JList xs)) \<in> measure (\<lambda>p. size (snd p))" by simp
next
  fix E :: env and kvs :: "(string \<times> json) list" and kv :: "string \<times> json"
  assume "kv \<in> set (sort_key fst kvs)"
  then have "kv \<in> set kvs" by simp
  then have "size (snd kv) < Suc (size_list (size_prod (\<lambda>_. 0) size) kvs)"
    by (induction kvs) auto
  then show "((E, snd kv), (E, JDict kvs)) \<in> measure (\<lambda>p. size (snd p))" by simp
qed


section \<open>The request client\<close>

text \<open>
  A cache entry is the dict \<open>{"timestamp": ..., "data": ...}\<close> that \<open>_make_request\<close>
  writes; nothing else writes to the cache, so both keys are always there.
\<close>

record cache_entry =
  entry_timestamp :: rat
  entry_data :: json

record client =
  base_url :: string
  api_key :: "string option"
  cache :: "string \<Rightarrow> cache_entry option"
  cache_ttl :: rat

type_synonym state = "client \<times> world"

definition rstrip_slash :: "string \<Rightarrow> string" where
  "rstrip_slash s = rev (dropWhile (\<lambda>c. c = CHR ''/'') (rev s))"

definition CKANAPIClient :: "string \<Rightarrow> string option \<Rightarrow> client" where
  "CKANAPIClient url key =
     \<lparr>base_url = rstrip_slash url, api_key = key, cache = Map.empty, cache_ttl = 300\<rparr>"

definition get_headers :: "client \<Rightarrow> (string \<times> string) list" where
  "get_headers c =
     [(''Content-Type'', ''application/json''), (''User-Agent'', ''MCP-CKAN-Server/1.0'')] @
     (case api_key c of
        None \<Rightarrow> []
      | Some k \<Rightarrow> (if k \<noteq> [] then [(''Authorization'', k)] else []))"

text \<open>\<open>json.dumps(data, sort_keys=True) if data else ''\<close>, the last part of the string
  the key is the digest of.\<close>

definition body_text :: "env \<Rightarrow> (string \<times> json) list option \<Rightarrow> string" where
  "body_text E data =
     (case data of
        None \<Rightarrow> []
      | Some kvs \<Rightarrow> (if kvs \<noteq> [] then dumps_sorted E (JDict kvs) else []))"

definition cache_data :: "env \<Rightarrow> string \<Rightarrow> string \<Rightarrow> (string \<times> json) list option \<Rightarrow> string" where
  "cache_data E method endpoint data = method @ '':'' @ endpoint @ '':'' @ body_text E data"

definition get_cache_key :: "env \<Rightarrow> string \<Rightarrow> string \<Rightarrow> (string \<times> json) list option \<Rightarrow> string" where
  "get_cache_key E method endpoint data = md5_hexdigest E (cache_data E method endpoint data)"

definition is_cache_valid :: "client \<Rightarrow> cache_entry \<Rightarrow> world \<Rightarrow> bool" where
  "is_cache_valid c cache_entry w = (clock w - entry_timestamp cache_entry < cache_ttl c)"

definition the_request :: "env \<Rightarrow> client \<Rightarrow> string \<Rightarrow> string \<Rightarrow> (string \<times> json) list option \<Rightarrow> request" where
  "the_request E c method endpoint data =
     \<lparr>req_method = method,
      req_url = urljoin E (base_url c @ ''/api/3/action/'') endpoint,
      req_headers = get_headers c,
      req_json = data\<rparr>"

text \<open>
  \<open>_make_request\<close>, on a client whose session is open.  A cache hit returns before
  anything else happens.  Otherwise the request goes out: the world records it and its
  clock advances by the time the portal took.  Whatever is raised while the response is
  read and unwrapped, other than an \<open>aiohttp.ClientError\<close>, is caught by the last handler
  and raised again with the prefix \<open>Request failed\<close>; that includes the
  \<open>CKAN API Error\<close> the function raises itself.
\<close>

definition make_request ::
  "env \<Rightarrow> string \<Rightarrow> string \<Rightarrow> (string \<times> json) list option \<Rightarrow> bool \<Rightarrow> state \<Rightarrow> (exn + json) \<times> state"
where
  "make_request E method endpoint data use_cache s =
     (let c = fst s; w = snd s;
          cache_key = get_cache_key E method endpoint data;
          hit = (if use_cache \<and> method = ''GET'' then
                   (case cache c cache_key of
                      None \<Rightarrow> None
                    | Some cache_entry \<Rightarrow>
                        (if is_cache_valid c cache_entry w then Some (entry_data cache_entry)
                         else None))
                 else None)
      in case hit of
           Some cached \<Rightarrow> (Inr cached, s)
         | None \<Rightarrow>
             (let rq = the_request E c method endpoint data;
                  answer = portal E w rq;
                  w' = w\<lparr>clock := clock w + fst answer, sent := sent w @ [rq]\<rparr>
              in case snd answer of
                   ClientError m \<Rightarrow> (Inl (Exception (''HTTP Error: '' @ m)), (c, w'))
                 | OtherError m \<Rightarrow> (Inl (Exception (''Request failed: '' @ m)), (c, w'))
                 | Body result \<Rightarrow>
                     (case ebind (py_get result ''success'' (JBool False)) (\<lambda>ok.
                             if \<not> truthy ok then
                               ebind (py_get result ''error'' (JDict [])) (\<lambda>error_msg.
                                 Inl (Exception (''CKAN API Error: '' @ py_str E error_msg)))
                             else py_get result ''result'' (JDict [])) of
                        Inl e \<Rightarrow> (Inl (Exception (''Request failed: '' @ str_exn e)), (c, w'))
                      | Inr result_data \<Rightarrow>
                          (Inr result_data,
                           ((if use_cache \<and> method = ''GET'' then
                               c\<lparr>cache := (cache c)(cache_key \<mapsto>
                                    \<lparr>entry_timestamp = clock w', entry_data = result_data\<rparr>)\<rparr>
                             else c), w')))))"


text \<open>Sequencing of operations that may raise and that change the client and the world.\<close>

definition sbind ::
  "(state \<Rightarrow> (exn + 'a) \<times> state) \<Rightarrow> ('a \<Rightarrow> state \<Rightarrow> (exn + 'b) \<times> state) \<Rightarrow>
   state \<Rightarrow> (exn + 'b) \<times> state"
where
  "sbind m f s = (case m s of (Inl e, s') \<Rightarrow> (Inl e, s') | (Inr x, s') \<Rightarrow> f x s')"

definition pure :: "exn + 'a \<Rightarrow> state \<Rightarrow> (exn + 'a) \<times> state" where
  "pure r s = (r, s)"

section \<open>Related datasets\<close>

text \<open>\<open>[x[k] for x in xs]\<close>: the first element that cannot be subscripted raises.\<close>

fun map_subscript :: "string \<Rightarrow> json list \<Rightarrow> exn + json list" where
  "map_subscript k [] = Inr []"
| "map_subscript k (x # xs) =
     ebind (subscript x k) (\<lambda>v. ebind (map_subscript k xs) (\<lambda>vs. Inr (v # vs)))"

text \<open>\<open>[ds for ds in xs if ds["id"] != dataset_id]\<close>, with \<open>dataset_id\<close> a string.\<close>

fun others :: "string \<Rightarrow> json list \<Rightarrow> exn + json list" where
  "others dataset_id [] = Inr []"
| "others dataset_id (ds # rest) =
     ebind (subscript ds ''id'') (\<lambda>i.
       ebind (others dataset_id rest) (\<lambda>r.
         Inr (if i \<noteq> JStr dataset_id then ds # r else r)))"

text \<open>
  The two lines every branch of \<open>get_related_datasets\<close> ends with: run the search and
  drop the source dataset from its results.
\<close>

definition search_related :: "env \<Rightarrow> string \<Rightarrow> string \<Rightarrow> state \<Rightarrow> (exn + json list) \<times> state" where
  "search_related E dataset_id query_string =
     sbind (make_request E ''GET'' (''package_search?'' @ query_string) None True) (\<lambda>results.
       pure (ebind (py_get results ''results'' (JList [])) (\<lambda>rs.
               ebind (py_iter rs) (others dataset_id))))"

definition get_related_datasets ::
  "env \<Rightarrow> string \<Rightarrow> string \<Rightarrow> int \<Rightarrow> state \<Rightarrow> (exn + json list) \<times> state"
where
  "get_related_datasets E dataset_id relation_type max_results =
     sbind (make_request E ''GET'' (''package_show?id='' @ dataset_id) None True) (\<lambda>source_dataset.
       sbind
         (if relation_type = ''tags'' then
            (case ebind (py_get source_dataset ''tags'' (JList [])) (\<lambda>ts.
                    ebind (py_iter ts) (map_subscript ''name'')) of
               Inl e \<Rightarrow> pure (Inl e)
             | Inr tags \<Rightarrow>
                 (if tags \<noteq> [] then
                    search_related E dataset_id
                      (''q=*:*&fq='' @
                       quote E (join '' OR '' (map (\<lambda>tag. ''tags:'' @ py_str E tag) tags)) @
                       ''&rows='' @ str_int max_results)
                  else pure (Inr [])))
          else if relation_type = ''organization'' then
            (case ebind (py_get source_dataset ''organization'' (JDict [])) (\<lambda>organization.
                    py_get organization ''id'' JNull) of
               Inl e \<Rightarrow> pure (Inl e)
             | Inr org \<Rightarrow>
                 (if truthy org then
                    search_related E dataset_id
                      (''q=organization:'' @ py_str E org @ ''&rows='' @ str_int max_results)
                  else pure (Inr [])))
          else if relation_type = ''theme'' then
            (case py_get source_dataset ''groups'' (JList []) of
               Inl e \<Rightarrow> pure (Inl e)
             | Inr groups \<Rightarrow>
                 (if truthy groups then
                    (case ebind (py_iter groups) (map_subscript ''id'') of
                       Inl e \<Rightarrow> pure (Inl e)
                     | Inr ids \<Rightarrow>
                         search_related E dataset_id
                           (''q=*:*&fq='' @
                            quote E (join '' OR '' (map (\<lambda>g. ''groups:'' @ py_str E g) ids)) @
                            ''&rows='' @ str_int max_results))
                  else pure (Inr [])))
          else pure (Inr []))
         (\<lambda>related_datasets. pure (Inr (slice_to related_datasets max_results))))"

section \<open>Data quality\<close>

definition required_fields :: "string list" where
  "required_fields = [''title'', ''notes'', ''tags'', ''organization'', ''resources'']"

definition valid_formats :: "string list" where
  "valid_formats = [''CSV'', ''JSON'', ''XML'', ''XLS'', ''XLSX'', ''PDF'', ''TXT'']"

text \<open>\<open>sum(1 for field in required_fields if dataset.get(field))\<close>.\<close>

fun count_present :: "json \<Rightarrow> string list \<Rightarrow> exn + nat" where
  "count_present dataset [] = Inr 0"
| "count_present dataset (field # rest) =
     ebind (py_get dataset field JNull) (\<lambda>v.
       ebind (count_present dataset rest) (\<lambda>n.
         Inr ((if truthy v then 1 else 0) + n)))"

text \<open>The loop over the resources: one entry, 100 or 0, per resource.\<close>

fun format_scores :: "env \<Rightarrow> json list \<Rightarrow> exn + int list" where
  "format_scores E [] = Inr []"
| "format_scores E (resource # rest) =
     ebind (py_get resource ''format'' (JStr [])) (\<lambda>f.
       ebind (upper E f) (\<lambda>res_format.
         ebind (py_get resource ''url'' JNull) (\<lambda>url.
           ebind (format_scores E rest) (\<lambda>r.
             Inr ((if res_format \<in> set valid_formats \<and> truthy url then 100 else 0) # r)))))"

text \<open>The value of a Python number; the scores are ints and floats.\<close>

fun num_value :: "json \<Rightarrow> rat" where
  "num_value (JInt i) = of_int i"
| "num_value (JFloat r) = r"
| "num_value _ = 0"

text \<open>\<open>sum(xs) / len(xs) if xs else 0\<close>: a float when there is something to average,
  the integer 0 otherwise.\<close>

definition mean :: "json list \<Rightarrow> json" where
  "mean xs = (if xs \<noteq> [] then JFloat (sum_list (map num_value xs) / of_nat (length xs))
              else JInt 0)"

text \<open>\<open>bool(dataset.get(a) or dataset.get(b))\<close>.\<close>

definition has_either :: "json \<Rightarrow> string \<Rightarrow> string \<Rightarrow> exn + bool" where
  "has_either dataset a b =
     ebind (py_get dataset a JNull) (\<lambda>x.
       if truthy x then Inr True
       else ebind (py_get dataset b JNull) (\<lambda>y. Inr (truthy y)))"

definition has_field :: "json \<Rightarrow> string \<Rightarrow> exn + bool" where
  "has_field dataset a = ebind (py_get dataset a JNull) (\<lambda>x. Inr (truthy x))"

text \<open>
  The three checks.  Each takes the \<open>checks\<close> dict of the report and the list \<open>scores\<close>
  as they stand and returns them with its own entry added.
\<close>

type_synonym tally = "(string \<times> json) list \<times> json list"

definition completeness :: "json \<Rightarrow> tally \<Rightarrow> exn + tally" where
  "completeness dataset t =
     ebind (count_present dataset required_fields) (\<lambda>present_fields.
       let completeness_score =
             JFloat ((of_nat present_fields / of_nat (length required_fields)) * 100)
       in Inr (AList.update ''completeness''
                 (JDict [(''score'', completeness_score),
                         (''required_fields'', JList (map JStr required_fields)),
                         (''present_fields'', JInt (int present_fields))]) (fst t),
               snd t @ [completeness_score]))"

definition format_validation :: "env \<Rightarrow> json \<Rightarrow> tally \<Rightarrow> exn + tally" where
  "format_validation E dataset t =
     ebind (py_get dataset ''resources'' (JList [])) (\<lambda>resources.
       ebind (py_iter resources) (\<lambda>rs.
         ebind (format_scores E rs) (\<lambda>fs.
           let format_score = mean (map JInt fs)
           in Inr (AList.update ''format_validation''
                     (JDict [(''score'', format_score),
                             (''resource_count'', JInt (int (length rs))),
                             (''valid_formats'', JList (map JStr valid_formats))]) (fst t),
                   snd t @ [format_score]))))"

definition schema_compliance :: "json \<Rightarrow> tally \<Rightarrow> exn + tally" where
  "schema_compliance dataset t =
     ebind (has_field dataset ''license_id'') (\<lambda>has_license.
     ebind (has_either dataset ''author'' ''author_email'') (\<lambda>has_author.
     ebind (has_either dataset ''maintainer'' ''maintainer_email'') (\<lambda>has_maintainer.
     ebind (has_either dataset ''temporal_coverage_from'' ''temporal_coverage_to'') (\<lambda>has_temporal.
     ebind (has_field dataset ''spatial'') (\<lambda>has_spatial.
       let compliance_items = [has_license, has_author, has_maintainer, has_temporal, has_spatial];
           compliance_score =
             JFloat ((of_nat (length (filter id compliance_items)) /
                      of_nat (length compliance_items)) * 100)
       in Inr (AList.update ''schema_compliance''
                 (JDict [(''score'', compliance_score),
                         (''has_license'', JBool has_license),
                         (''has_author'', JBool has_author),
                         (''has_maintainer'', JBool has_maintainer),
                         (''has_temporal_coverage'', JBool has_temporal),
                         (''has_spatial_coverage'', JBool has_spatial)]) (fst t),
               snd t @ [compliance_score]))))))"

text \<open>
  What \<open>check_data_quality\<close> computes from the fetched dataset; \<open>now\<close> is the instant the
  report is stamped with.
\<close>

definition quality_report :: "env \<Rightarrow> string \<Rightarrow> string list \<Rightarrow> rat \<Rightarrow> json \<Rightarrow> exn + json" where
  "quality_report E dataset_id checks now dataset =
     ebind (py_get dataset ''name'' JNull) (\<lambda>dataset_name.
     ebind (if ''completeness'' \<in> set checks then completeness dataset ([], []) else Inr ([], []))
       (\<lambda>t1.
     ebind (if ''format_validation'' \<in> set checks then format_validation E dataset t1 else Inr t1)
       (\<lambda>t2.
     ebind (if ''schema_compliance'' \<in> set checks then schema_compliance dataset t2 else Inr t2)
       (\<lambda>t3.
       Inr (JDict (AList.update ''overall_score'' (mean (snd t3))
              [(''dataset_id'', JStr dataset_id),
               (''dataset_name'', dataset_name),
               (''timestamp'', JStr (isoformat E now)),
               (''checks'', JDict (fst t3)),
               (''overall_score'', JInt 0)]))))))"

definition check_data_quality ::
  "env \<Rightarrow> string \<Rightarrow> string list option \<Rightarrow> int \<Rightarrow> state \<Rightarrow> (exn + json) \<times> state"
where
  "check_data_quality E dataset_id checks sample_size =
     (let checks = (case checks of
                      None \<Rightarrow> [''completeness'', ''format_validation'', ''schema_compliance'']
                    | Some cs \<Rightarrow> cs)
      in sbind (make_request E ''GET'' (''package_show?id='' @ dataset_id) None True) (\<lambda>dataset s.
           (quality_report E dataset_id checks (clock (snd s)) dataset, s)))"


section \<open>Dataset analytics\<close>

text \<open>\<open>v[:n]\<close> on a dynamically typed value (a dict rejects the slice as a key).\<close>

fun py_slice_to :: "json \<Rightarrow> int \<Rightarrow> exn + json" where
  "py_slice_to (JList xs) n = Inr (JList (slice_to xs n))"
| "py_slice_to (JStr s) n = Inr (JStr (slice_to s n))"
| "py_slice_to (JDict kvs) n = Inl (TypeError (''unhashable type: '' @ sq @ ''slice'' @ sq))"
| "py_slice_to v n = Inl (TypeError (sq @ type_name v @ sq @ '' object is not subscriptable''))"

definition popular_entry :: "json \<Rightarrow> exn + json" where
  "popular_entry ds =
     ebind (subscript ds ''id'') (\<lambda>i.
     ebind (subscript ds ''name'') (\<lambda>n.
     ebind (py_get ds ''num_resources'' (JInt 0)) (\<lambda>r.
       Inr (JDict [(''id'', i), (''name'', n), (''resources'', r)]))))"

definition default_time_range :: json where
  "default_time_range = JDict [(''start'', JStr ''30_days_ago''), (''end'', JStr ''now'')]"

definition analytics_dict :: "string \<Rightarrow> json \<Rightarrow> (string \<times> json) list \<Rightarrow> json" where
  "analytics_dict dataset_id time_range metrics =
     JDict [(''dataset_id'', JStr dataset_id),
            (''time_range'', (if truthy time_range then time_range else default_time_range)),
            (''metrics'', JDict metrics)]"

text \<open>The metrics of one dataset, from the fetched \<open>dataset\<close>.\<close>

definition dataset_metrics :: "string list \<Rightarrow> json \<Rightarrow> exn + (string \<times> json) list" where
  "dataset_metrics metrics dataset =
     ebind (if ''resource_count'' \<in> set metrics then
              ebind (py_get dataset ''resources'' (JList [])) (\<lambda>rs.
              ebind (py_len rs) (\<lambda>n.
                Inr (AList.update ''resource_count'' (JInt (int n)) [])))
            else Inr []) (\<lambda>m1.
     ebind (if ''views'' \<in> set metrics then
              ebind (py_get dataset ''tracking_summary'' (JDict [])) (\<lambda>ts.
              ebind (py_get ts ''total'' (JInt 0)) (\<lambda>v.
                Inr (AList.update ''views'' v m1)))
            else Inr m1) (\<lambda>m2.
     ebind (if ''downloads'' \<in> set metrics then
              ebind (py_get dataset ''tracking_summary'' (JDict [])) (\<lambda>ts.
              ebind (py_get ts ''recent'' (JInt 0)) (\<lambda>v.
                Inr (AList.update ''downloads'' v m2)))
            else Inr m2) (\<lambda>m3.
     ebind (py_get dataset ''metadata_created'' JNull) (\<lambda>created.
     ebind (py_get dataset ''metadata_modified'' JNull) (\<lambda>modified.
     ebind (ebind (py_get dataset ''tags'' (JList [])) py_len) (\<lambda>tags_count.
     ebind (ebind (py_get dataset ''organization'' (JDict [])) (\<lambda>organization.
              py_get organization ''name'' JNull)) (\<lambda>organization_name.
       Inr (AList.update ''organization'' organization_name
           (AList.update ''tags_count'' (JInt (int tags_count))
           (AList.update ''modified'' modified
           (AList.update ''created'' created m3)))))))))))"

definition get_dataset_analytics ::
  "env \<Rightarrow> string \<Rightarrow> json \<Rightarrow> string list option \<Rightarrow> state \<Rightarrow> (exn + json) \<times> state"
where
  "get_dataset_analytics E dataset_id time_range metrics =
     (let metrics = (case metrics of
                       None \<Rightarrow> [''views'', ''downloads'', ''api_calls'', ''resource_count'']
                     | Some ms \<Rightarrow> ms)
      in if dataset_id = ''all'' then
           sbind (make_request E ''GET'' ''status_show'' None True) (\<lambda>site_stats.
           sbind (make_request E ''GET'' ''package_list'' None True) (\<lambda>package_list.
           sbind (pure (py_len package_list)) (\<lambda>total_datasets.
           sbind (make_request E ''GET''
                    ''package_search?q=*:*&sort=metadata_created desc&rows=10'' None True) (\<lambda>recent.
           sbind (pure (py_get recent ''count'' (JInt 0))) (\<lambda>recent_datasets.
           sbind (make_request E ''GET''
                    ''package_search?q=*:*&sort=num_resources desc&rows=10'' None True) (\<lambda>popular.
             pure (ebind (py_get popular ''results'' (JList [])) (\<lambda>rs.
                   ebind (py_slice_to rs 5) (\<lambda>top.
                   ebind (py_iter top) (\<lambda>dss.
                   ebind (emap popular_entry dss) (\<lambda>popular_datasets.
                     Inr (analytics_dict dataset_id time_range
                            [(''total_datasets'', JInt (int total_datasets)),
                             (''site_status'', site_stats),
                             (''recent_datasets'', recent_datasets),
                             (''popular_datasets'', JList popular_datasets)]))))))))))))
         else
           sbind (make_request E ''GET'' (''package_show?id='' @ dataset_id) None True) (\<lambda>dataset.
             pure (ebind (dataset_metrics metrics dataset) (\<lambda>m.
                     Inr (analytics_dict dataset_id time_range m)))))"

section \<open>Resource preview\<close>

definition field_stat :: "json \<Rightarrow> exn + json" where
  "field_stat field =
     ebind (py_get field ''id'' JNull) (\<lambda>i.
     ebind (py_get field ''type'' JNull) (\<lambda>t.
     ebind (py_get field ''info'' (JDict [])) (\<lambda>info.
       Inr (JDict [(''id'', i), (''type'', t), (''info'', info)]))))"

text \<open>The \<open>except\<close> block, applied to the preview dict as it stands when something raised.\<close>

definition datastore_unavailable :: "(string \<times> json) list \<Rightarrow> (string \<times> json) list" where
  "datastore_unavailable preview =
     AList.update ''note'' (JStr ''DataStore not available for this resource'')
       (AList.update ''preview_data'' JNull preview)"

text \<open>The preview dict built from the resource metadata, before the \<open>try\<close>.\<close>

definition resource_summary :: "string \<Rightarrow> json \<Rightarrow> exn + (string \<times> json) list" where
  "resource_summary resource_id resource =
     ebind (py_get resource ''name'' JNull) (\<lambda>name.
     ebind (py_get resource ''format'' JNull) (\<lambda>format.
     ebind (py_get resource ''url'' JNull) (\<lambda>url.
     ebind (py_get resource ''size'' JNull) (\<lambda>size.
     ebind (py_get resource ''created'' JNull) (\<lambda>created.
     ebind (py_get resource ''last_modified'' JNull) (\<lambda>last_modified.
       Inr [(''resource_id'', JStr resource_id),
            (''resource_name'', name),
            (''format'', format),
            (''url'', url),
            (''size'', size),
            (''created'', created),
            (''last_modified'', last_modified)]))))))"

text \<open>
  The body of the \<open>try\<close> after the datastore answered.  It returns the preview dict and
  whether the body ran to its end; a dict returned with \<open>False\<close> holds the entries set
  before the exception.
\<close>

definition datastore_preview ::
  "bool \<Rightarrow> json \<Rightarrow> (string \<times> json) list \<Rightarrow> bool \<times> (string \<times> json) list"
where
  "datastore_preview generate_stats datastore_info preview =
     (case py_get datastore_info ''records'' (JList []) of
        Inl e \<Rightarrow> (False, preview)
      | Inr records \<Rightarrow>
          (let p1 = AList.update ''preview_data'' records preview in
           case py_get datastore_info ''total'' (JInt 0) of
             Inl e \<Rightarrow> (False, p1)
           | Inr total_records \<Rightarrow>
               (let p2 = AList.update ''total_records'' total_records p1 in
                if generate_stats then
                  (case py_get datastore_info ''fields'' JNull of
                     Inl e \<Rightarrow> (False, p2)
                   | Inr field_list \<Rightarrow>
                       (if truthy field_list then
                          (case ebind (py_get datastore_info ''fields'' (JList [])) (\<lambda>fs.
                                  ebind (py_iter fs) (emap field_stat)) of
                             Inl e \<Rightarrow> (False, p2)
                           | Inr fields_stats \<Rightarrow>
                               (True, AList.update ''field_statistics'' (JList fields_stats) p2))
                        else (True, p2)))
                else (True, p2))))"

definition preview_resource ::
  "env \<Rightarrow> string \<Rightarrow> int \<Rightarrow> bool \<Rightarrow> state \<Rightarrow> (exn + json) \<times> state"
where
  "preview_resource E resource_id preview_rows generate_stats =
     sbind (make_request E ''GET'' (''resource_show?id='' @ resource_id) None True) (\<lambda>resource.
     sbind (pure (resource_summary resource_id resource)) (\<lambda>preview s.
       (case make_request E ''GET''
               (''datastore_search?resource_id='' @ resource_id @
                ''&limit='' @ str_int preview_rows) None True s of
          (Inl e, s') \<Rightarrow> (Inr (JDict (datastore_unavailable preview)), s')
        | (Inr datastore_info, s') \<Rightarrow>
            (case datastore_preview generate_stats datastore_info preview of
               (True, p) \<Rightarrow> (Inr (JDict p), s')
             | (False, p) \<Rightarrow> (Inr (JDict (datastore_unavailable p)), s')))))"


section \<open>Search queries\<close>

definition dq :: string where
  "dq = [CHR 0x22]"

text \<open>\<open>v[i]\<close> with a literal index \<open>i\<close>; the keys of a decoded JSON object are strings,
  so an integer is never one of them.\<close>

fun py_index :: "json \<Rightarrow> nat \<Rightarrow> exn + json" where
  "py_index (JList xs) i =
     (if i < length xs then Inr (xs ! i) else Inl (IndexError ''list index out of range''))"
| "py_index (JStr s) i =
     (if i < length s then Inr (JStr [s ! i]) else Inl (IndexError ''string index out of range''))"
| "py_index (JDict kvs) i = Inl (KeyError (str_nat i))"
| "py_index v i = Inl (TypeError (sq @ type_name v @ sq @ '' object is not subscriptable''))"

text \<open>
  The \<open>params\<close> dict of \<open>faceted_search\<close> as it stands before the query string is
  assembled.  The optional dicts are \<open>None\<close> when the caller left them out.
\<close>

definition faceted_params ::
  "env \<Rightarrow> string \<Rightarrow> string list option \<Rightarrow> (string \<times> json) list option \<Rightarrow>
   (string \<times> json) list option \<Rightarrow> (string \<times> json) list option \<Rightarrow> exn + (string \<times> json) list"
where
  "faceted_params E q facet_fields filters spatial_query date_range =
     (let params =
            [(''q'', JStr q),
             (''facet'', JStr ''true''),
             (''facet.field'',
                JStr (case facet_fields of
                        None \<Rightarrow> ''['' @ dq @ ''tags'' @ dq @ '', '' @ dq @ ''organization'' @ dq @
                                '', '' @ dq @ ''res_format'' @ dq @ '']''
                      | Some fs \<Rightarrow>
                          (if fs \<noteq> [] then dumps_sorted E (JList (map JStr fs))
                           else ''['' @ dq @ ''tags'' @ dq @ '', '' @ dq @ ''organization'' @ dq @
                                '', '' @ dq @ ''res_format'' @ dq @ '']''))),
             (''rows'', JInt 100)];
          params =
            (case filters of
               None \<Rightarrow> params
             | Some kvs \<Rightarrow>
                 (if kvs \<noteq> [] then
                    AList.update ''fq''
                      (JStr (join '' AND ''
                               (map (\<lambda>kv. fst kv @ '':'' @ py_str E (snd kv)) kvs))) params
                  else params))
      in ebind
           (case spatial_query of
              None \<Rightarrow> Inr params
            | Some sp \<Rightarrow>
                (if sp = [] then Inr params
                 else if map_of sp ''bbox'' \<noteq> None then
                   ebind (subscript (JDict sp) ''bbox'') (\<lambda>bbox.
                   ebind (py_index bbox 0) (\<lambda>b0.
                   ebind (py_index bbox 1) (\<lambda>b1.
                   ebind (py_index bbox 2) (\<lambda>b2.
                   ebind (py_index bbox 3) (\<lambda>b3.
                     Inr (AList.update ''ext_bbox''
                            (JStr (py_str E b0 @ '','' @ py_str E b1 @ '','' @
                                   py_str E b2 @ '','' @ py_str E b3)) params))))))
                 else if map_of sp ''point'' \<noteq> None \<and> map_of sp ''radius'' \<noteq> None then
                   ebind (subscript (JDict sp) ''point'') (\<lambda>point.
                   ebind (subscript (JDict sp) ''radius'') (\<lambda>radius.
                   ebind (py_index point 0) (\<lambda>p0.
                   ebind (py_index point 1) (\<lambda>p1.
                     Inr (AList.update ''ext_spatial''
                            (JStr (py_str E p0 @ '','' @ py_str E p1 @ '','' @ py_str E radius))
                            params)))))
                 else Inr params))
           (\<lambda>params.
              (case date_range of
                 None \<Rightarrow> Inr params
               | Some dr \<Rightarrow>
                   (if dr = [] then Inr params
                    else
                      ebind (py_get (JDict dr) ''start'' (JStr ''*'')) (\<lambda>start_date.
                      ebind (py_get (JDict dr) ''end'' (JStr ''*'')) (\<lambda>end_date.
                      ebind (py_get (JDict dr) ''field'' (JStr ''metadata_created'')) (\<lambda>date_field.
                        let date_fq = py_str E date_field @ '':['' @ py_str E start_date @
                                      '' TO '' @ py_str E end_date @ '']''
                        in (case map_of params ''fq'' of
                              Some fq \<Rightarrow>
                                Inr (AList.update ''fq''
                                       (JStr (py_str E fq @ '' AND '' @ date_fq)) params)
                            | None \<Rightarrow> Inr (AList.update ''fq'' (JStr date_fq) params)))))))))"

definition faceted_search ::
  "env \<Rightarrow> string \<Rightarrow> string list option \<Rightarrow> (string \<times> json) list option \<Rightarrow>
   (string \<times> json) list option \<Rightarrow> (string \<times> json) list option \<Rightarrow> state \<Rightarrow> (exn + json) \<times> state"
where
  "faceted_search E q facet_fields filters spatial_query date_range =
     sbind (pure (faceted_params E q facet_fields filters spatial_query date_range)) (\<lambda>params.
       make_request E ''GET''
         (''package_search?'' @
          join ''&'' (map (\<lambda>kv. fst kv @ ''='' @ quote E (py_str E (snd kv))) params))
         None True)"

text \<open>
  The interactive explorer (\<open>CKANExplorer.search_packages\<close>) builds its own filter clause
  from an organization and a comma-separated list of tags.
\<close>

definition search_packages_fq :: "string option \<Rightarrow> string option \<Rightarrow> string option" where
  "search_packages_fq organization tags =
     (let fq_parts =
            (case organization of
               None \<Rightarrow> []
             | Some org \<Rightarrow> (if org \<noteq> [] then [''organization:'' @ org] else [])) @
            (case tags of
               None \<Rightarrow> []
             | Some ts \<Rightarrow>
                 (if ts \<noteq> [] then map (\<lambda>tag. ''tags:'' @ strip tag) (split (CHR '','') ts)
                  else []))
      in if fq_parts \<noteq> [] then Some (join '' AND '' fq_parts) else None)"

definition search_packages ::
  "env \<Rightarrow> string \<Rightarrow> int \<Rightarrow> string option \<Rightarrow> string option \<Rightarrow> state \<Rightarrow> (exn + json) \<times> state"
where
  "search_packages E query rows organization tags =
     (let params =
            [(''q'', JStr query), (''rows'', JInt rows)] @
            (case search_packages_fq organization tags of
               None \<Rightarrow> []
             | Some fq \<Rightarrow> (if fq \<noteq> [] then [(''fq'', JStr fq)] else []))
      in make_request E ''GET''
           (''package_search?'' @
            join ''&'' (map (\<lambda>kv. fst kv @ ''='' @ py_str E (snd kv)) params))
           None True)"

section \<open>The response envelope and the tool dispatcher\<close>

datatype MCPErrorType =
    INVALID_PARAMS
  | CKAN_API_ERROR
  | NETWORK_ERROR
  | PERMISSION_DENIED
  | DATA_NOT_FOUND

fun error_value :: "MCPErrorType \<Rightarrow> string" where
  "error_value INVALID_PARAMS = ''invalid_parameters''"
| "error_value CKAN_API_ERROR = ''ckan_api_error''"
| "error_value NETWORK_ERROR = ''network_error''"
| "error_value PERMISSION_DENIED = ''permission_denied''"
| "error_value DATA_NOT_FOUND = ''data_not_found''"

record response =
  r_success :: bool
  r_data :: json
  r_error :: json
  r_metadata :: "(string \<times> json) list"

definition StandardResponse :: "env \<Rightarrow> rat \<Rightarrow> bool \<Rightarrow> json \<Rightarrow> json \<Rightarrow> response" where
  "StandardResponse E now success data error =
     \<lparr>r_success = success, r_data = data, r_error = error,
      r_metadata = [(''timestamp'', JStr (isoformat E now)),
                    (''execution_time_ms'', JInt 0),
                    (''api_version'', JStr ''2.0.0'')]\<rparr>"

definition to_dict :: "response \<Rightarrow> (string \<times> json) list" where
  "to_dict r =
     (let result = [(''success'', JBool (r_success r)), (''metadata'', JDict (r_metadata r))];
          result = (if r_data r \<noteq> JNull then AList.update ''data'' (r_data r) result else result);
          result = (if truthy (r_error r) then AList.update ''error'' (r_error r) result else result)
      in result)"

text \<open>\<open>int(x)\<close> on a float: truncation towards zero.\<close>

definition py_int :: "rat \<Rightarrow> int" where
  "py_int x = (if 0 \<le> x then \<lfloor>x\<rfloor> else \<lceil>x\<rceil>)"

text \<open>The chain of substring tests in the \<open>except\<close> block of \<open>handle_call_tool\<close>.\<close>

definition classify :: "env \<Rightarrow> string \<Rightarrow> MCPErrorType" where
  "classify E msg =
     (if contains ''not found'' (str_lower E msg) then DATA_NOT_FOUND
      else if contains ''permission'' (str_lower E msg) \<or>
              contains ''unauthorized'' (str_lower E msg)
        then PERMISSION_DENIED
      else if contains ''network'' (str_lower E msg) \<or> contains ''connection'' (str_lower E msg)
        then NETWORK_ERROR
      else if contains ''invalid'' (str_lower E msg) \<or> contains ''parameter'' (str_lower E msg)
        then INVALID_PARAMS
      else CKAN_API_ERROR)"

definition set_execution_time :: "rat \<Rightarrow> rat \<Rightarrow> response \<Rightarrow> response" where
  "set_execution_time start_time end_time r =
     r\<lparr>r_metadata := AList.update ''execution_time_ms''
                        (JInt (py_int ((end_time - start_time) * 1000))) (r_metadata r)\<rparr>"

text \<open>
  \<open>handle_call_tool\<close>.  The module-level client is \<open>None\<close> until \<open>main\<close> has set it.  The
  \<open>try\<close> block picks, by \<open>name\<close>, one operation of the client and awaits it on values read
  from \<open>arguments\<close>; \<open>operation\<close> stands for that whole block up to the assignment of
  \<open>result\<close>, so it covers a failing argument lookup and the final \<open>Unknown tool\<close> as well.
  The function returns the dict that is then written out with \<open>json.dumps\<close>.
\<close>

definition handle_call_tool ::
  "env \<Rightarrow> string \<Rightarrow> json \<Rightarrow> (state \<Rightarrow> (exn + json) \<times> state) \<Rightarrow>
   client option \<times> world \<Rightarrow> (string \<times> json) list \<times> (client option \<times> world)"
where
  "handle_call_tool E name arguments operation g =
     (case fst g of
        None \<Rightarrow>
          (to_dict (StandardResponse E (clock (snd g)) False JNull
                      (JDict [(''type'', JStr (error_value CKAN_API_ERROR)),
                              (''message'', JStr
                                 ''CKAN client not initialized. Please set CKAN_URL environment variable.'')])),
           g)
      | Some ckan_client \<Rightarrow>
          (let start_time = clock (snd g);
               run = operation (ckan_client, snd g);
               g' = (Some (fst (snd run)), snd (snd run));
               end_time = clock (snd g')
           in case fst run of
                Inr result \<Rightarrow>
                  (to_dict (set_execution_time start_time end_time
                              (StandardResponse E end_time True result JNull)), g')
              | Inl e \<Rightarrow>
                  (to_dict (set_execution_time start_time end_time
                              (StandardResponse E end_time False JNull
                                 (JDict [(''type'', JStr (error_value (classify E (str_exn e)))),
                                         (''message'', JStr (str_exn e)),
                                         (''tool'', JStr name),
                                         (''arguments'', arguments)]))), g')))"


section \<open>Reading reports\<close>

text \<open>\<open>report["checks"][check]["score"]\<close> and \<open>report["metrics"][metric]\<close>, when they exist.\<close>

definition check_score :: "json \<Rightarrow> string \<Rightarrow> json option" where
  "check_score report check =
     (case report of
        JDict r \<Rightarrow>
          (case map_of r ''checks'' of
             Some (JDict chk) \<Rightarrow>
               (case map_of chk check of
                  Some (JDict detail) \<Rightarrow> map_of detail ''score''
                | _ \<Rightarrow> None)
           | _ \<Rightarrow> None)
      | _ \<Rightarrow> None)"

definition report_metric :: "json \<Rightarrow> string \<Rightarrow> json option" where
  "report_metric report metric =
     (case report of
        JDict r \<Rightarrow>
          (case map_of r ''metrics'' of
             Some (JDict m) \<Rightarrow> map_of m metric
           | _ \<Rightarrow> None)
      | _ \<Rightarrow> None)"

text \<open>\<open>k in d\<close> for a dict \<open>d\<close>, and \<open>d.get(k)\<close> on the items of a dict.\<close>

fun has_key :: "json \<Rightarrow> string \<Rightarrow> bool" where
  "has_key (JDict kvs) k = (map_of kvs k \<noteq> None)"
| "has_key _ k = False"

definition field_of :: "(string \<times> json) list \<Rightarrow> string \<Rightarrow> json" where
  "field_of d k = (case map_of d k of None \<Rightarrow> JNull | Some v \<Rightarrow> v)"

text \<open>The filter clause in the \<open>params\<close> of a search, when there is one.\<close>

definition fq_clause :: "exn + (string \<times> json) list \<Rightarrow> json option" where
  "fq_clause params = (case params of Inl e \<Rightarrow> None | Inr p \<Rightarrow> map_of p ''fq'')"

text \<open>A score is a number between 0 and 100.\<close>

fun in_range :: "json \<Rightarrow> bool" where
  "in_range (JInt i) = (0 \<le> i \<and> i \<le> 100)"
| "in_range (JFloat x) = (0 \<le> x \<and> x \<le> 100)"
| "in_range _ = False"

text \<open>
  The invariant of the three checks: every entry of \<open>checks\<close> has a score in range, and
  so has every element of \<open>scores\<close>.
\<close>

definition scored :: "json \<Rightarrow> bool" where
  "scored v = (case v of
                 JDict d \<Rightarrow> (case map_of d ''score'' of Some sc \<Rightarrow> in_range sc | None \<Rightarrow> False)
               | _ \<Rightarrow> False)"

definition good_tally :: "tally \<Rightarrow> bool" where
  "good_tally t =
     ((\<forall>k v. map_of (fst t) k = Some v \<longrightarrow> scored v) \<and> (\<forall>sc\<in>set (snd t). in_range sc))"

section \<open>Reading a serialised body back\<close>

text \<open>
  What the cache key is computed from is a text; whether two requests share a key is a
  question about when two such texts are equal.  The definitions of this section do not
  embed any function of the client: they describe the texts that \<open>json.dumps\<close> writes.

  A scanner that follows the string literals of a text.  Outside a literal a backslash
  cannot occur and a colon is followed by a blank, which is how the default separators
  write the colon of a dict item; inside a literal a backslash escapes the next character.
\<close>

datatype lex = Outside | After_colon | Inside | Escaped

fun step :: "lex \<Rightarrow> char \<Rightarrow> lex option" where
  "step Outside c =
     (if c = CHR 0x22 then Some Inside
      else if c = CHR 0x5C then None
      else if c = CHR '':'' then Some After_colon
      else Some Outside)"
| "step After_colon c = (if c = CHR '' '' then Some Outside else None)"
| "step Inside c =
     (if c = CHR 0x22 then Some Outside
      else if c = CHR 0x5C then Some Escaped
      else Some Inside)"
| "step Escaped c = Some Inside"

fun scan :: "lex \<Rightarrow> string \<Rightarrow> lex option" where
  "scan q [] = Some q"
| "scan q (c # cs) = (case step q c of None \<Rightarrow> None | Some q' \<Rightarrow> scan q' cs)"

text \<open>
  Two scanner states are opposite when one is inside a literal and the other is not.
\<close>

fun opposite :: "lex \<Rightarrow> lex \<Rightarrow> bool" where
  "opposite Inside Outside = True"
| "opposite Inside After_colon = True"
| "opposite Outside Inside = True"
| "opposite After_colon Inside = True"
| "opposite _ _ = False"

text \<open>
  The characters of a decimal integer, and those a float may add to them.
\<close>

definition digits :: "char set" where
  "digits = set ''0123456789''"

definition int_chars :: "char set" where
  "int_chars = insert (CHR ''-'') digits"

definition number_chars :: "char set" where
  "number_chars = set ''0123456789+-.e''"

text \<open>
  What is assumed of \<open>float.__repr__\<close>, which \<open>json.dumps\<close> calls for a finite
  float: it writes a non-empty text of digits, signs, a point and an exponent mark, with
  a point or an exponent mark in it, which no integer has, and it writes different
  values differently.  \<open>float_text\<close> is the part of it that concerns the characters
  only.
\<close>

definition float_text :: "env \<Rightarrow> bool" where
  "float_text E = (\<forall>x. set (repr E (JFloat x)) \<subseteq> number_chars)"

definition float_printer :: "env \<Rightarrow> bool" where
  "float_printer E =
     ((\<forall>x. repr E (JFloat x) \<noteq> [] \<and> set (repr E (JFloat x)) \<subseteq> number_chars \<and>
           \<not> set (repr E (JFloat x)) \<subseteq> int_chars) \<and>
      inj (\<lambda>x. repr E (JFloat x)))"

text \<open>
  What may follow a value inside the text of a list or a dict: the end of the text, a
  comma or a closing bracket.
\<close>

definition closing :: "string \<Rightarrow> bool" where
  "closing r = (r = [] \<or> hd r \<in> set '',]}'')"

text \<open>
  A body up to the order of its items: the items of every dict, at every depth, in the
  order of their keys, which is the order in which \<open>sort_keys=True\<close> writes them.  A
  Python dict holds every key once, and two dicts are equal when they hold the same
  items, whatever the order of insertion; so two bodies without repeated keys are equal
  in Python exactly if \<open>canon\<close> maps them to the same value.  \<open>canon_body\<close> also
  identifies no body with the empty body, the two bodies that \<open>if data\<close> rejects.
\<close>

function canon :: "json \<Rightarrow> json" where
  "canon JNull = JNull"
| "canon (JBool b) = JBool b"
| "canon (JInt i) = JInt i"
| "canon (JFloat r) = JFloat r"
| "canon (JStr s) = JStr s"
| "canon (JList xs) = JList (map canon xs)"
| "canon (JDict kvs) = JDict (map (\<lambda>kv. (fst kv, canon (snd kv))) (sort_key fst kvs))"
  by pat_completeness auto
termination
proof (relation "measure size")
  show "wf (measure size)" by simp
next
  fix xs :: "json list" and x :: json
  assume "x \<in> set xs"
  then have "size x < Suc (size_list size xs)"
    by (induction xs) auto
  then show "(x, JList xs) \<in> measure size" by simp
next
  fix kvs :: "(string \<times> json) list" and kv :: "string \<times> json"
  assume "kv \<in> set (sort_key fst kvs)"
  then have "kv \<in> set kvs" by simp
  then have "size (snd kv) < Suc (size_list (size_prod (\<lambda>_. 0) size) kvs)"
    by (induction kvs) auto
  then show "(snd kv, JDict kvs) \<in> measure size" by simp
qed

definition canon_body :: "(string \<times> json) list option \<Rightarrow> json option" where
  "canon_body data =
     (case data of
        None \<Rightarrow> None
      | Some kvs \<Rightarrow> (if kvs \<noteq> [] then Some (canon (JDict kvs)) else None))"

text \<open>
  The characters a value's text may start with, and a number per kind of value such
  that two values whose texts may start alike are of the same kind.
\<close>

fun first_chars :: "json \<Rightarrow> char set" where
  "first_chars JNull = {CHR ''n''}"
| "first_chars (JBool b) = (if b then {CHR ''t''} else {CHR ''f''})"
| "first_chars (JInt i) = number_chars"
| "first_chars (JFloat r) = number_chars"
| "first_chars (JStr s) = {CHR 0x22}"
| "first_chars (JList xs) = {CHR ''[''}"
| "first_chars (JDict kvs) = {CHR ''{''}"

fun kind :: "json \<Rightarrow> nat" where
  "kind JNull = 0"
| "kind (JBool b) = (if b then 1 else 2)"
| "kind (JInt i) = 3"
| "kind (JFloat r) = 3"
| "kind (JStr s) = 4"
| "kind (JList xs) = 5"
| "kind (JDict kvs) = 6"


section \<open>A small portal to run the client against\<close>

text \<open>
  A concrete environment: the hash is the identity (so two keys are equal exactly when
  the hashed strings are), URLs are joined by concatenation, the case mappings change the
  ASCII letters, and the portal knows a site
  status, a dataset \<open>X\<close> without an organization (the portal reports that as \<open>null\<close>), a
  dataset \<open>Y\<close> of organization \<open>o1\<close>, the datasets of that organization, and a resource
  \<open>R\<close> that has no datastore table.  Every request takes one second.
\<close>

definition demo_site :: json where
  "demo_site = JDict [(''site_title'', JStr ''Demo'')]"

definition demo_dataset_x :: json where
  "demo_dataset_x =
     JDict [(''id'', JStr ''X''), (''name'', JStr ''x''), (''title'', JStr ''Dataset X''),
            (''organization'', JNull), (''resources'', JList []), (''tags'', JList [])]"

definition demo_dataset_y :: json where
  "demo_dataset_y =
     JDict [(''id'', JStr ''Y''), (''name'', JStr ''y''), (''title'', JStr ''Dataset Y''),
            (''notes'', JStr ''About Y''),
            (''organization'', JDict [(''id'', JStr ''o1''), (''name'', JStr ''Org'')]),
            (''resources'', JList [JDict [(''format'', JStr ''csv''), (''url'', JStr ''http://f/1'')],
                                   JDict [(''format'', JStr ''exe''), (''url'', JStr ''http://f/2'')]]),
            (''tags'', JList [JDict [(''name'', JStr ''t'')]])]"

definition demo_dataset_z :: json where
  "demo_dataset_z = JDict [(''id'', JStr ''Z''), (''name'', JStr ''z'')]"

definition demo_resource :: json where
  "demo_resource =
     JDict [(''id'', JStr ''R''), (''name'', JStr ''r''), (''format'', JStr ''CSV''),
            (''url'', JStr ''http://f/1'')]"

definition ok_body :: "json \<Rightarrow> transport" where
  "ok_body v = Body (JDict [(''success'', JBool True), (''result'', v)])"

definition demo_portal :: "world \<Rightarrow> request \<Rightarrow> rat \<times> transport" where
  "demo_portal w rq =
     (1, if req_url rq = ''http://p/api/3/action/status_show'' then ok_body demo_site
         else if req_url rq = ''http://p/api/3/action/package_show?id=X'' then ok_body demo_dataset_x
         else if req_url rq = ''http://p/api/3/action/package_show?id=Y'' then ok_body demo_dataset_y
         else if req_url rq = ''http://p/api/3/action/package_search?q=organization:o1&rows=10''
           then ok_body (JDict [(''count'', JInt 2),
                                (''results'', JList [demo_dataset_y, demo_dataset_z])])
         else if req_url rq = ''http://p/api/3/action/resource_show?id=R'' then ok_body demo_resource
         else if req_url rq = ''http://p/api/3/action/datastore_search?resource_id=R&limit=10''
           then Body (JDict [(''success'', JBool False),
                             (''error'', JDict [(''message'', JStr ''Not found'')])])
         else if req_url rq = ''http://p/api/3/action/site_read'' then ok_body JNull
         else ClientError ''connection refused'')"

text \<open>
  The printer of the small portal's environment: a float is written as the numerator and
  the denominator of its value in lowest terms, around a point; every other value that
  reaches \<open>repr\<close> is written as a placeholder.
\<close>

fun demo_repr :: "json \<Rightarrow> string" where
  "demo_repr (JFloat r) =
     str_int (fst (quotient_of r)) @ ''.'' @ str_nat (nat (snd (quotient_of r)))"
| "demo_repr v = ''<value>''"

definition demo_env :: env where
  "demo_env =
     \<lparr>md5_hexdigest = (\<lambda>s. s),
      urljoin = (\<lambda>b e. b @ e),
      quote = (\<lambda>s. s),
      repr = demo_repr,
      str_upper = map ascii_upper,
      str_lower = map ascii_lower,
      isoformat = (\<lambda>t. ''2024-01-01T00:00:00''),
      portal = demo_portal\<rparr>"

definition demo_client :: client where
  "demo_client = CKANAPIClient ''http://p/'' None"

definition demo_world :: world where
  "demo_world = \<lparr>clock = 1000, sent = []\<rparr>"

text \<open>The client and the world 199 seconds after a first \<open>status_show\<close> was answered.\<close>

definition demo_cached :: client where
  "demo_cached =
     demo_client\<lparr>cache := [''GET:status_show:'' \<mapsto>
                               \<lparr>entry_timestamp = 1001, entry_data = demo_site\<rparr>]\<rparr>"

definition demo_later :: world where
  "demo_later =
     \<lparr>clock = 1200, sent = [the_request demo_env demo_client ''GET'' ''status_show'' None]\<rparr>"

text \<open>The quality report of dataset \<open>Y\<close> with all three checks.\<close>

definition demo_report :: json where
  "demo_report =
     JDict [(''dataset_id'', JStr ''Y''),
            (''dataset_name'', JStr ''y''),
            (''timestamp'', JStr ''2024-01-01T00:00:00''),
            (''checks'', JDict
               [(''completeness'', JDict [(''score'', JFloat 100),
                   (''required_fields'', JList (map JStr required_fields)),
                   (''present_fields'', JInt 5)]),
                (''format_validation'', JDict [(''score'', JFloat 50),
                   (''resource_count'', JInt 2),
                   (''valid_formats'', JList (map JStr valid_formats))]),
                (''schema_compliance'', JDict [(''score'', JFloat 0),
                   (''has_license'', JBool False),
                   (''has_author'', JBool False),
                   (''has_maintainer'', JBool False),
                   (''has_temporal_coverage'', JBool False),
                   (''has_spatial_coverage'', JBool False)])]),
            (''overall_score'', JFloat 50)]"

text \<open>The analytics of dataset \<open>Y\<close> for the metrics \<open>views\<close> and \<open>downloads\<close>.\<close>

definition demo_analytics :: json where
  "demo_analytics =
     JDict [(''dataset_id'', JStr ''Y''),
            (''time_range'', JDict [(''start'', JStr ''30_days_ago''), (''end'', JStr ''now'')]),
            (''metrics'', JDict [(''views'', JInt 0), (''downloads'', JInt 0),
                                 (''created'', JNull), (''modified'', JNull),
                                 (''tags_count'', JInt 1), (''organization'', JStr ''Org'')])]"

section \<open>Unfolding and evaluation\<close>

lemmas demo_defs =
  demo_env_def demo_portal_def demo_client_def demo_world_def demo_cached_def demo_later_def
  demo_site_def demo_dataset_x_def demo_dataset_y_def demo_dataset_z_def demo_resource_def
  ok_body_def CKANAPIClient_def rstrip_slash_def

lemmas request_defs =
  make_request_def get_cache_key_def cache_data_def body_text_def is_cache_valid_def the_request_def
  get_headers_def sbind_def pure_def ebind_def Let_def

lemmas envelope_defs =
  handle_call_tool_def to_dict_def StandardResponse_def set_execution_time_def Let_def

lemma ebind_Inr: "ebind m f = Inr y \<longleftrightarrow> (\<exists>x. m = Inr x \<and> f x = Inr y)"
  by (cases m) (simp_all add: ebind_def)

text \<open>The first fetch of each dataset of the small portal.\<close>

lemma demo_fetch_x:
  "make_request demo_env ''GET'' ''package_show?id=X'' None True (demo_client, demo_world) =
     (Inr demo_dataset_x,
      (demo_client\<lparr>cache := (cache demo_client)(''GET:package_show?id=X:'' \<mapsto>
           \<lparr>entry_timestamp = 1001, entry_data = demo_dataset_x\<rparr>)\<rparr>,
       \<lparr>clock = 1001,
        sent = [the_request demo_env demo_client ''GET'' ''package_show?id=X'' None]\<rparr>))"
  by (simp add: request_defs demo_defs)

lemma demo_fetch_y:
  "make_request demo_env ''GET'' ''package_show?id=Y'' None True (demo_client, demo_world) =
     (Inr demo_dataset_y,
      (demo_client\<lparr>cache := (cache demo_client)(''GET:package_show?id=Y:'' \<mapsto>
           \<lparr>entry_timestamp = 1001, entry_data = demo_dataset_y\<rparr>)\<rparr>,
       \<lparr>clock = 1001,
        sent = [the_request demo_env demo_client ''GET'' ''package_show?id=Y'' None]\<rparr>))"
  by (simp add: request_defs demo_defs)

lemma demo_fetch_r:
  "make_request demo_env ''GET'' ''resource_show?id=R'' None True (demo_client, demo_world) =
     (Inr demo_resource,
      (demo_client\<lparr>cache := (cache demo_client)(''GET:resource_show?id=R:'' \<mapsto>
           \<lparr>entry_timestamp = 1001, entry_data = demo_resource\<rparr>)\<rparr>,
       \<lparr>clock = 1001,
        sent = [the_request demo_env demo_client ''GET'' ''resource_show?id=R'' None]\<rparr>))"
  by (simp add: request_defs demo_defs)

lemma str_int_10: "str_int 10 = ''10''"
  by code_simp

lemma demo_datastore_r:
  "make_request demo_env ''GET'' ''datastore_search?resource_id=R&limit=10'' None True
     (demo_client\<lparr>cache := (cache demo_client)(''GET:resource_show?id=R:'' \<mapsto>
           \<lparr>entry_timestamp = 1001, entry_data = demo_resource\<rparr>)\<rparr>,
       \<lparr>clock = 1001,
        sent = [the_request demo_env demo_client ''GET'' ''resource_show?id=R'' None]\<rparr>) =
     (Inl (Exception ''Request failed: CKAN API Error: <value>''),
      (demo_client\<lparr>cache := (cache demo_client)(''GET:resource_show?id=R:'' \<mapsto>
           \<lparr>entry_timestamp = 1001, entry_data = demo_resource\<rparr>)\<rparr>,
       \<lparr>clock = 1002,
        sent = [the_request demo_env demo_client ''GET'' ''resource_show?id=R'' None,
                the_request demo_env demo_client ''GET'' ''datastore_search?resource_id=R&limit=10'' None]\<rparr>))"
  by (simp add: request_defs demo_defs py_str_def)

section \<open>The cache\<close>



text \<open>
  Two calls in a row: when a first call had to go to the portal and returned a result,
  the same call made less than 300 seconds after that result was stored returns the
  identical result and sends nothing.
\<close>

lemma make_request_twice:
  assumes "cache_ttl c = 300"
    and "cache c (get_cache_key E ''GET'' endpoint body) = None \<or>
         (\<exists>entry. cache c (get_cache_key E ''GET'' endpoint body) = Some entry \<and>
                  \<not> clock w - entry_timestamp entry < 300)"
    and "make_request E ''GET'' endpoint body True (c, w) = (Inr x, (c', w'))"
    and "clock w2 - clock w' < 300"
  shows "make_request E ''GET'' endpoint body True (c', w2) = (Inr x, (c', w2))"
proof -
  from assms(1-3) have "cache c' (get_cache_key E ''GET'' endpoint body) =
      Some \<lparr>entry_timestamp = clock w', entry_data = x\<rparr>" and "cache_ttl c' = 300"
    by (auto simp: make_request_def Let_def is_cache_valid_def
             split: option.splits transport.splits sum.splits if_splits)
  with assms(4) show ?thesis
    by (simp add: make_request_def Let_def is_cache_valid_def)
qed

section \<open>Failures at the dispatcher\<close>

text \<open>
  Claim C2.  Whatever the selected operation raises, \<open>handle_call_tool\<close> returns an
  envelope: \<open>success\<close> is false, there is no \<open>data\<close>, and \<open>error\<close> holds the type, which is
  one of the five values of \<open>MCPErrorType\<close>, the message of the exception, the name of
  the tool and the arguments as they were passed.  The function has no exceptional
  result, and the client and the world are as the operation left them.
\<close>

theorem handle_call_tool_failure:
  "operation (c, w) = (Inl e, s') \<Longrightarrow>
   handle_call_tool E name arguments operation (Some c, w) = (envelope, g') \<Longrightarrow>
   map_of envelope ''success'' = Some (JBool False) \<and>
   map_of envelope ''data'' = None \<and>
   map_of envelope ''error'' =
     Some (JDict [(''type'', JStr (error_value (classify E (str_exn e)))),
                  (''message'', JStr (str_exn e)),
                  (''tool'', JStr name),
                  (''arguments'', arguments)]) \<and>
   error_value (classify E (str_exn e)) \<in>
     {''invalid_parameters'', ''ckan_api_error'', ''network_error'', ''permission_denied'',
      ''data_not_found''} \<and>
   g' = (Some (fst s'), snd s')"
proof -
  assume op: "operation (c, w) = (Inl e, s')"
    and h: "handle_call_tool E name arguments operation (Some c, w) = (envelope, g')"
  have kind: "error_value k \<in>
     {''invalid_parameters'', ''ckan_api_error'', ''network_error'', ''permission_denied'',
      ''data_not_found''}" for k
    by (cases k) simp_all
  from op h have env: "envelope =
      to_dict (set_execution_time (clock w) (clock (snd s'))
        (StandardResponse E (clock (snd s')) False JNull
           (JDict [(''type'', JStr (error_value (classify E (str_exn e)))),
                   (''message'', JStr (str_exn e)),
                   (''tool'', JStr name),
                   (''arguments'', arguments)])))"
    and g: "g' = (Some (fst s'), snd s')"
    by (auto simp: handle_call_tool_def Let_def)
  show ?thesis
    using kind g by (simp add: env to_dict_def StandardResponse_def set_execution_time_def)
qed

text \<open>A request the small portal refuses is reported as a network error.\<close>

lemma demo_failure:
  "make_request demo_env ''GET'' ''package_show?id=Q'' None True (demo_client, demo_world) =
     (Inl (Exception ''HTTP Error: connection refused''),
      (demo_client, \<lparr>clock = 1001, sent = [the_request demo_env demo_client ''GET'' ''package_show?id=Q'' None]\<rparr>))"
  by (simp add: request_defs demo_defs)

lemma demo_classify: "classify demo_env ''HTTP Error: connection refused'' = NETWORK_ERROR"
  by code_simp

theorem handle_call_tool_failure_witness:
  "map_of (fst (handle_call_tool demo_env ''ckan_package_show'' (JDict [(''id'', JStr ''Q'')])
                  (make_request demo_env ''GET'' ''package_show?id=Q'' None True)
                  (Some demo_client, demo_world))) ''error'' =
     Some (JDict [(''type'', JStr ''network_error''),
                  (''message'', JStr ''HTTP Error: connection refused''),
                  (''tool'', JStr ''ckan_package_show''),
                  (''arguments'', JDict [(''id'', JStr ''Q'')])]) \<and>
   map_of (fst (handle_call_tool demo_env ''ckan_package_show'' (JDict [(''id'', JStr ''Q'')])
                  (make_request demo_env ''GET'' ''package_show?id=Q'' None True)
                  (Some demo_client, demo_world))) ''success'' = Some (JBool False)"
proof -
  let ?h = "handle_call_tool demo_env ''ckan_package_show'' (JDict [(''id'', JStr ''Q'')])
              (make_request demo_env ''GET'' ''package_show?id=Q'' None True)
              (Some demo_client, demo_world)"
  have h: "?h = (fst ?h, snd ?h)" by simp
  from handle_call_tool_failure [OF demo_failure h] show ?thesis
    by (simp add: demo_classify)
qed

section \<open>The fields of the envelope\<close>

text \<open>
  Claim C3 says that \<open>data\<close> is present exactly on success, for every payload, a
  \<open>None\<close> result included.  \<open>to_dict\<close> leaves \<open>data\<close> out when it is \<open>None\<close>: the portal
  answers \<open>site_read\<close> with a \<open>null\<close> result, and the envelope of that successful call
  has no \<open>data\<close>.
\<close>

theorem envelope_data_counterexample:
  "map_of (fst (handle_call_tool demo_env ''ckan_site_read'' JNull
                  (make_request demo_env ''GET'' ''site_read'' None True)
                  (Some demo_client, demo_world))) ''success'' = Some (JBool True) \<and>
   map_of (fst (handle_call_tool demo_env ''ckan_site_read'' JNull
                  (make_request demo_env ''GET'' ''site_read'' None True)
                  (Some demo_client, demo_world))) ''data'' = None"
  by (simp add: envelope_defs request_defs demo_defs)

text \<open>
  Claim C3, amended.  In every envelope \<open>handle_call_tool\<close> returns, \<open>error\<close> is present
  exactly when \<open>success\<close> is false, and \<open>data\<close> is present exactly when \<open>success\<close> is true
  and the operation did not return \<open>None\<close>; when present, \<open>data\<close> is the result.
\<close>

theorem envelope_fields:
  "handle_call_tool E name arguments operation g = (envelope, g') \<Longrightarrow>
   (map_of envelope ''error'' \<noteq> None) = (map_of envelope ''success'' = Some (JBool False)) \<and>
   (map_of envelope ''data'' \<noteq> None) =
     (map_of envelope ''success'' = Some (JBool True) \<and>
      \<not> (\<exists>c. fst g = Some c \<and> fst (operation (c, snd g)) = Inr JNull)) \<and>
   (\<forall>c result. fst g = Some c \<and> fst (operation (c, snd g)) = Inr result \<and> result \<noteq> JNull \<longrightarrow>
      map_of envelope ''data'' = Some result)"
proof -
  assume h: "handle_call_tool E name arguments operation g = (envelope, g')"
  show ?thesis
  proof (cases "fst g")
    case None
    with h have "map_of envelope ''success'' = Some (JBool False)"
      and "map_of envelope ''error'' \<noteq> None" and "map_of envelope ''data'' = None"
      by (auto simp: envelope_defs)
    with None show ?thesis by simp
  next
    case (Some c)
    show ?thesis
    proof (cases "fst (operation (c, snd g))")
      case (Inl e)
      with Some h have "map_of envelope ''success'' = Some (JBool False)"
        and "map_of envelope ''error'' \<noteq> None" and "map_of envelope ''data'' = None"
        by (auto simp: envelope_defs)
      with Some Inl show ?thesis by simp
    next
      case (Inr result)
      with Some h have "map_of envelope ''success'' = Some (JBool True)"
        and "map_of envelope ''error'' = None"
        and "map_of envelope ''data'' = (if result = JNull then None else Some result)"
        by (auto simp: envelope_defs)
      with Some Inr show ?thesis by simp
    qed
  qed
qed

theorem envelope_fields_witness:
  "map_of (fst (handle_call_tool demo_env ''ckan_status_show'' JNull
                  (make_request demo_env ''GET'' ''status_show'' None True)
                  (Some demo_client, demo_world))) ''data'' = Some demo_site \<and>
   map_of (fst (handle_call_tool demo_env ''ckan_status_show'' JNull
                  (make_request demo_env ''GET'' ''status_show'' None True)
                  (Some demo_client, demo_world))) ''error'' = None"
proof -
  let ?h = "handle_call_tool demo_env ''ckan_status_show'' JNull
              (make_request demo_env ''GET'' ''status_show'' None True)
              (Some demo_client, demo_world)"
  have h: "?h = (fst ?h, snd ?h)" by simp
  have r: "fst (make_request demo_env ''GET'' ''status_show'' None True (demo_client, demo_world)) =
             Inr demo_site"
    by (simp add: request_defs demo_defs)
  have ok: "map_of (fst ?h) ''success'' = Some (JBool True)"
    by (simp add: envelope_defs r)
  from envelope_fields [OF h] show ?thesis
    using r ok by (simp add: demo_site_def)
qed

section \<open>Filter clauses\<close>

text \<open>
  Claim C4 says that the filters \<open>{organization: "x", tags: "a,b"}\<close> give the clause
  \<open>organization:x AND tags:a AND tags:b\<close>.  \<open>faceted_search\<close> joins one \<open>field:value\<close> pair
  per filter and does not look into the values, so the tags stay together.
\<close>

theorem faceted_filters_counterexample:
  "fq_clause (faceted_params demo_env ''*:*'' None
                (Some [(''organization'', JStr ''x''), (''tags'', JStr ''a,b'')]) None None) =
     Some (JStr ''organization:x AND tags:a,b'') \<and>
   fq_clause (faceted_params demo_env ''*:*'' None
                (Some [(''organization'', JStr ''x''), (''tags'', JStr ''a,b'')]) None None) \<noteq>
     Some (JStr ''organization:x AND tags:a AND tags:b'')"
  by (simp add: fq_clause_def faceted_params_def ebind_def py_str_def Let_def)

text \<open>
  What \<open>split\<close> and \<open>strip\<close> do, said without their definitions: the parts of a split
  contain no separator and give the string back when joined with it; a stripped string
  is the string without white space at its two ends and nothing else removed.
\<close>

lemma split_nonempty: "split sep s \<noteq> []"
  by (induction s) (auto split: list.splits)

lemma join_Cons_head: "join sep ((c # p) # ps) = c # join sep (p # ps)"
  by (cases ps) simp_all

lemma join_split: "join [sep] (split sep s) = s"
proof (induction s)
  case Nil
  show ?case by simp
next
  case (Cons c cs)
  obtain p ps where ps: "split sep cs = p # ps"
    using split_nonempty [of sep cs] by (cases "split sep cs") auto
  with Cons show ?case by (simp add: join_Cons_head)
qed

lemma split_no_sep: "p \<in> set (split sep s) \<Longrightarrow> sep \<notin> set p"
proof (induction s arbitrary: p)
  case Nil
  then show ?case by simp
next
  case (Cons c cs)
  then show ?case by (auto split: if_splits list.splits)
qed

lemma rev_split_while: "xs = rev (dropWhile P (rev xs)) @ rev (takeWhile P (rev xs))"
proof -
  have "rev (takeWhile P (rev xs) @ dropWhile P (rev xs)) = rev (rev xs)"
    by (simp only: takeWhile_dropWhile_id)
  then show ?thesis by (simp only: rev_append rev_rev_ident)
qed

lemma strip_inner: "dropWhile is_space s = strip s @ rev (takeWhile is_space (rev (dropWhile is_space s)))"
  unfolding strip_def by (rule rev_split_while)

lemma strip_decompose:
  "\<exists>a b. s = a @ strip s @ b \<and> (\<forall>c\<in>set a. is_space c) \<and> (\<forall>c\<in>set b. is_space c)"
proof -
  let ?a = "takeWhile is_space s"
  let ?b = "rev (takeWhile is_space (rev (dropWhile is_space s)))"
  have "s = ?a @ dropWhile is_space s" by simp
  also have "dropWhile is_space s = strip s @ ?b" by (rule strip_inner)
  finally have 1: "s = ?a @ strip s @ ?b" .
  have a: "\<forall>c\<in>set ?a. is_space c"
    by (auto dest: set_takeWhileD)
  have b: "\<forall>c\<in>set ?b. is_space c"
    by (auto dest: set_takeWhileD)
  from 1 a b show ?thesis by blast
qed

lemma strip_ends:
  "strip s \<noteq> [] \<Longrightarrow> \<not> is_space (hd (strip s)) \<and> \<not> is_space (last (strip s))"
proof -
  assume n: "strip s \<noteq> []"
  let ?u = "dropWhile is_space s"
  from n have d: "dropWhile is_space (rev ?u) \<noteq> []" by (simp add: strip_def)
  then have l: "\<not> is_space (hd (dropWhile is_space (rev ?u)))" by (rule hd_dropWhile)
  have "last (strip s) = hd (dropWhile is_space (rev ?u))"
    using d by (simp add: strip_def last_rev)
  with l have last: "\<not> is_space (last (strip s))" by simp
  have u: "?u = strip s @ rev (takeWhile is_space (rev ?u))" by (rule strip_inner)
  with n have "?u \<noteq> []" by (metis append_is_Nil_conv)
  then have "\<not> is_space (hd ?u)" by (rule hd_dropWhile)
  moreover from u n have "hd ?u = hd (strip s)" by (metis hd_append2)
  ultimately show ?thesis using last by simp
qed

lemma search_packages_fq_tags:
  "search_packages_fq (Some ''x'') (Some ''a,b'') = Some ''organization:x AND tags:a AND tags:b''"
  by code_simp

lemma search_packages_fq_trim:
  "search_packages_fq (Some ''x'') (Some '' a , b '') =
     Some ''organization:x AND tags:a AND tags:b''"
  by code_simp

text \<open>
  Claim C4, amended.  \<open>faceted_search\<close> turns every filter into \<open>field:value\<close>, with the
  value as it is, and joins the pairs with \<open>AND\<close>; for the filters of the claim that is
  \<open>organization:x AND tags:a,b\<close>.  Splitting a comma-separated list of tags, one pair per
  trimmed tag, is what \<open>search_packages\<close> of the explorer does with its \<open>tags\<close> argument:
  for every organization and every list of tags, both not empty, the clause is the
  \<open>organization\<close> pair followed by one \<open>tags\<close> pair per part of the list, joined with \<open>AND\<close>,
  where the parts are the pieces between the commas and each is put in without the white
  space at its ends.  Organization \<open>x\<close> and tags \<open>a,b\<close> give
  \<open>organization:x AND tags:a AND tags:b\<close>.
\<close>

theorem filter_clauses:
  "fq_clause (faceted_params E q facet_fields (Some (kv # kvs)) None None) =
     Some (JStr (join '' AND '' (map (\<lambda>kv. fst kv @ '':'' @ py_str E (snd kv)) (kv # kvs)))) \<and>
   fq_clause (faceted_params E q facet_fields
                (Some [(''organization'', JStr ''x''), (''tags'', JStr ''a,b'')]) None None) =
     Some (JStr ''organization:x AND tags:a,b'') \<and>
   (org \<noteq> [] \<and> tags \<noteq> [] \<longrightarrow>
      search_packages_fq (Some org) (Some tags) =
        Some (join '' AND '' ((''organization:'' @ org) #
                               map (\<lambda>tag. ''tags:'' @ strip tag) (split (CHR '','') tags))) \<and>
      join '','' (split (CHR '','') tags) = tags \<and>
      (\<forall>tag \<in> set (split (CHR '','') tags).
         CHR '','' \<notin> set tag \<and>
         (\<exists>a b. tag = a @ strip tag @ b \<and> (\<forall>c\<in>set a. is_space c) \<and> (\<forall>c\<in>set b. is_space c)) \<and>
         (strip tag \<noteq> [] \<longrightarrow> \<not> is_space (hd (strip tag)) \<and> \<not> is_space (last (strip tag))))) \<and>
   search_packages_fq (Some ''x'') (Some ''a,b'') = Some ''organization:x AND tags:a AND tags:b'' \<and>
   search_packages_fq (Some ''x'') (Some '' a , b '') = Some ''organization:x AND tags:a AND tags:b''"
proof (intro conjI impI ballI)
  show "fq_clause (faceted_params E q facet_fields (Some (kv # kvs)) None None) =
     Some (JStr (join '' AND '' (map (\<lambda>kv. fst kv @ '':'' @ py_str E (snd kv)) (kv # kvs))))"
    by (simp add: fq_clause_def faceted_params_def ebind_def Let_def)
  show "fq_clause (faceted_params E q facet_fields
                (Some [(''organization'', JStr ''x''), (''tags'', JStr ''a,b'')]) None None) =
     Some (JStr ''organization:x AND tags:a,b'')"
    by (simp add: fq_clause_def faceted_params_def ebind_def py_str_def Let_def)
next
  assume "org \<noteq> [] \<and> tags \<noteq> []"
  then show "search_packages_fq (Some org) (Some tags) =
        Some (join '' AND '' ((''organization:'' @ org) #
                               map (\<lambda>tag. ''tags:'' @ strip tag) (split (CHR '','') tags)))"
    by (simp add: search_packages_fq_def)
next
  show "join '','' (split (CHR '','') tags) = tags"
    by (rule join_split)
next
  fix tag assume "tag \<in> set (split (CHR '','') tags)"
  then show "CHR '','' \<notin> set tag" by (rule split_no_sep)
next
  fix tag
  show "\<exists>a b. tag = a @ strip tag @ b \<and> (\<forall>c\<in>set a. is_space c) \<and> (\<forall>c\<in>set b. is_space c)"
    by (rule strip_decompose)
next
  fix tag assume "strip tag \<noteq> []"
  then show "\<not> is_space (hd (strip tag))" "\<not> is_space (last (strip tag))"
    by (simp_all add: strip_ends)
next
  show "search_packages_fq (Some ''x'') (Some ''a,b'') = Some ''organization:x AND tags:a AND tags:b''"
    by (rule search_packages_fq_tags)
  show "search_packages_fq (Some ''x'') (Some '' a , b '') = Some ''organization:x AND tags:a AND tags:b''"
    by (rule search_packages_fq_trim)
qed

text \<open>Three tags, two of them with blanks around.\<close>

theorem filter_clauses_witness:
  "search_packages_fq (Some ''x'') (Some ''a, b ,c'') =
     Some ''organization:x AND tags:a AND tags:b AND tags:c'' \<and>
   join '','' [''a'', '' b '', ''c''] = ''a, b ,c''"
proof -
  have h: "''x'' \<noteq> [] \<and> ''a, b ,c'' \<noteq> []" by simp
  have v: "join '' AND '' ((''organization:'' @ ''x'') #
             map (\<lambda>tag. ''tags:'' @ strip tag) (split (CHR '','') ''a, b ,c'')) =
           ''organization:x AND tags:a AND tags:b AND tags:c''"
    by code_simp
  have w: "split (CHR '','') ''a, b ,c'' = [''a'', '' b '', ''c'']"
    by code_simp
  from filter_clauses [of _ _ _ _ _ "''x''" "''a, b ,c''"] h
  have e1: "search_packages_fq (Some ''x'') (Some ''a, b ,c'') =
        Some (join '' AND '' ((''organization:'' @ ''x'') #
                               map (\<lambda>tag. ''tags:'' @ strip tag) (split (CHR '','') ''a, b ,c'')))"
    and e2: "join '','' (split (CHR '','') ''a, b ,c'') = ''a, b ,c''"
    by blast+
  from e1 [unfolded v] e2 [unfolded w] show ?thesis by (rule conjI)
qed

section \<open>Views and downloads\<close>

lemma dataset_metrics_tracking:
  "dataset_metrics ms dataset = Inr m \<Longrightarrow>
   (''views'' \<in> set ms \<longrightarrow>
      (\<exists>ts v. py_get dataset ''tracking_summary'' (JDict []) = Inr ts \<and>
              py_get ts ''total'' (JInt 0) = Inr v \<and> map_of m ''views'' = Some v)) \<and>
   (''downloads'' \<in> set ms \<longrightarrow>
      (\<exists>ts v. py_get dataset ''tracking_summary'' (JDict []) = Inr ts \<and>
              py_get ts ''recent'' (JInt 0) = Inr v \<and> map_of m ''downloads'' = Some v)) \<and>
   (''views'' \<notin> set ms \<longrightarrow> map_of m ''views'' = None) \<and>
   (''downloads'' \<notin> set ms \<longrightarrow> map_of m ''downloads'' = None)"
  by (auto simp: dataset_metrics_def ebind_Inr update_conv' split: if_splits)

lemma demo_analytics_pure:
  "dataset_metrics [''views'', ''downloads''] demo_dataset_y =
     Inr [(''views'', JInt 0), (''downloads'', JInt 0), (''created'', JNull), (''modified'', JNull),
          (''tags_count'', JInt 1), (''organization'', JStr ''Org'')]"
  by code_simp

lemma demo_analytics_run:
  "get_dataset_analytics demo_env ''Y'' JNull (Some [''views'', ''downloads''])
     (demo_client, demo_world) =
     (Inr demo_analytics,
      (demo_client\<lparr>cache := (cache demo_client)(''GET:package_show?id=Y:'' \<mapsto>
           \<lparr>entry_timestamp = 1001, entry_data = demo_dataset_y\<rparr>)\<rparr>,
       \<lparr>clock = 1001,
        sent = [the_request demo_env demo_client ''GET'' ''package_show?id=Y'' None]\<rparr>))"
  by (simp add: get_dataset_analytics_def sbind_def pure_def demo_fetch_y demo_analytics_pure)
     (simp add: ebind_def analytics_dict_def default_time_range_def demo_analytics_def)

text \<open>
  Claim C5 says that without a tracking summary the report has no \<open>views\<close> and no
  \<open>downloads\<close>.  Dataset \<open>Y\<close> has no \<open>tracking_summary\<close>; its report has both, with the
  default 0.
\<close>

theorem analytics_views_counterexample:
  "\<not> has_key demo_dataset_y ''tracking_summary'' \<and>
   fst (get_dataset_analytics demo_env ''Y'' JNull (Some [''views'', ''downloads''])
          (demo_client, demo_world)) = Inr demo_analytics \<and>
   report_metric demo_analytics ''views'' = Some (JInt 0) \<and>
   report_metric demo_analytics ''downloads'' = Some (JInt 0)"
  by (simp add: demo_analytics_run)
     (simp add: demo_dataset_y_def demo_analytics_def report_metric_def)

text \<open>
  Claim C5, amended.  In the report on one dataset, \<open>views\<close> is there exactly when
  requested, and it is the \<open>total\<close> of the tracking summary of the fetched dataset, with
  0 standing in for a missing \<open>total\<close> and for a missing tracking summary; likewise
  \<open>downloads\<close> and \<open>recent\<close>.  So without a tracking summary a requested \<open>views\<close> or
  \<open>downloads\<close> is 0.
\<close>

theorem analytics_views_downloads:
  "dataset_id \<noteq> ''all'' \<Longrightarrow>
   make_request E ''GET'' (''package_show?id='' @ dataset_id) None True s = (Inr dataset, s1) \<Longrightarrow>
   get_dataset_analytics E dataset_id time_range metrics s = (Inr report, s2) \<Longrightarrow>
   requested = (case metrics of
                  None \<Rightarrow> [''views'', ''downloads'', ''api_calls'', ''resource_count'']
                | Some ms \<Rightarrow> ms) \<Longrightarrow>
   (''views'' \<in> set requested \<longrightarrow>
      (\<exists>ts v. py_get dataset ''tracking_summary'' (JDict []) = Inr ts \<and>
              py_get ts ''total'' (JInt 0) = Inr v \<and> report_metric report ''views'' = Some v)) \<and>
   (''downloads'' \<in> set requested \<longrightarrow>
      (\<exists>ts v. py_get dataset ''tracking_summary'' (JDict []) = Inr ts \<and>
              py_get ts ''recent'' (JInt 0) = Inr v \<and> report_metric report ''downloads'' = Some v)) \<and>
   (''views'' \<notin> set requested \<longrightarrow> report_metric report ''views'' = None) \<and>
   (''downloads'' \<notin> set requested \<longrightarrow> report_metric report ''downloads'' = None) \<and>
   (\<forall>kvs. dataset = JDict kvs \<and> map_of kvs ''tracking_summary'' = None \<longrightarrow>
      (''views'' \<in> set requested \<longrightarrow> report_metric report ''views'' = Some (JInt 0)) \<and>
      (''downloads'' \<in> set requested \<longrightarrow> report_metric report ''downloads'' = Some (JInt 0)))"
proof -
  assume single: "dataset_id \<noteq> ''all''"
    and fetch: "make_request E ''GET'' (''package_show?id='' @ dataset_id) None True s = (Inr dataset, s1)"
    and run: "get_dataset_analytics E dataset_id time_range metrics s = (Inr report, s2)"
    and req: "requested = (case metrics of
                  None \<Rightarrow> [''views'', ''downloads'', ''api_calls'', ''resource_count'']
                | Some ms \<Rightarrow> ms)"
  from single fetch run req obtain m where m: "dataset_metrics requested dataset = Inr m"
    and report: "report = analytics_dict dataset_id time_range m"
    by (auto simp: get_dataset_analytics_def sbind_def pure_def ebind_Inr Let_def)
  have rm: "report_metric report k = map_of m k" for k
    by (simp add: report analytics_dict_def report_metric_def)
  from dataset_metrics_tracking [OF m] show ?thesis
    by (auto simp: rm)
qed

theorem analytics_views_downloads_witness:
  "report_metric demo_analytics ''views'' = Some (JInt 0) \<and>
   report_metric demo_analytics ''downloads'' = Some (JInt 0) \<and>
   report_metric demo_analytics ''resource_count'' = None"
proof -
  have f: "make_request demo_env ''GET'' (''package_show?id='' @ ''Y'') None True
             (demo_client, demo_world) =
           (Inr demo_dataset_y,
            (demo_client\<lparr>cache := (cache demo_client)(''GET:package_show?id=Y:'' \<mapsto>
                 \<lparr>entry_timestamp = 1001, entry_data = demo_dataset_y\<rparr>)\<rparr>,
             \<lparr>clock = 1001,
              sent = [the_request demo_env demo_client ''GET'' ''package_show?id=Y'' None]\<rparr>))"
    using demo_fetch_y by simp
  have n: "''Y'' \<noteq> ''all''" by simp
  have absent: "\<exists>kvs. demo_dataset_y = JDict kvs \<and> map_of kvs ''tracking_summary'' = None"
    by (simp add: demo_dataset_y_def)
  from analytics_views_downloads [OF n f demo_analytics_run refl] absent
  have "report_metric demo_analytics ''views'' = Some (JInt 0)"
    and "report_metric demo_analytics ''downloads'' = Some (JInt 0)"
    by auto
  then show ?thesis by (simp add: demo_analytics_def report_metric_def)
qed

section \<open>Format validation without resources\<close>

text \<open>
  Claim C6.  When the fetched dataset has an empty resource list (or no \<open>resources\<close> key,
  for which the code substitutes the empty list), \<open>check_data_quality\<close> with the single
  check \<open>format_validation\<close> returns a report, and the score of that check is the
  integer 0.
\<close>

theorem format_validation_no_resources:
  "make_request E ''GET'' (''package_show?id='' @ dataset_id) None True s = (Inr dataset, s1) \<Longrightarrow>
   py_get dataset ''resources'' (JList []) = Inr (JList []) \<Longrightarrow>
   (\<exists>report. check_data_quality E dataset_id (Some [''format_validation'']) sample_size s =
                (Inr report, s1) \<and>
             check_score report ''format_validation'' = Some (JInt 0))"
proof -
  assume fetch: "make_request E ''GET'' (''package_show?id='' @ dataset_id) None True s = (Inr dataset, s1)"
    and empty: "py_get dataset ''resources'' (JList []) = Inr (JList [])"
  from empty obtain kvs where d: "dataset = JDict kvs"
    by (cases dataset) simp_all
  have fv: "format_validation E dataset ([], []) =
          Inr ([(''format_validation'',
                 JDict [(''score'', JInt 0), (''resource_count'', JInt 0),
                        (''valid_formats'', JList (map JStr valid_formats))])], [JInt 0])"
    using empty by (simp add: format_validation_def ebind_def mean_def Let_def)
  show ?thesis
    using fetch fv
    by (simp add: check_data_quality_def sbind_def quality_report_def ebind_def d
          check_score_def mean_def Let_def)
qed

theorem format_validation_no_resources_witness:
  "(\<exists>report. fst (check_data_quality demo_env ''X'' (Some [''format_validation'']) 100
                      (demo_client, demo_world)) = Inr report \<and>
             check_score report ''format_validation'' = Some (JInt 0))"
proof -
  have e: "py_get demo_dataset_x ''resources'' (JList []) = Inr (JList [])"
    by (simp add: demo_dataset_x_def)
  have f: "make_request demo_env ''GET'' (''package_show?id='' @ ''X'') None True
             (demo_client, demo_world) =
           (Inr demo_dataset_x,
            (demo_client\<lparr>cache := (cache demo_client)(''GET:package_show?id=X:'' \<mapsto>
                 \<lparr>entry_timestamp = 1001, entry_data = demo_dataset_x\<rparr>)\<rparr>,
             \<lparr>clock = 1001,
              sent = [the_request demo_env demo_client ''GET'' ''package_show?id=X'' None]\<rparr>))"
    using demo_fetch_x by simp
  from format_validation_no_resources [OF f e, of 100] show ?thesis
    by auto
qed

section \<open>Related datasets of a dataset without organization\<close>

text \<open>
  Claim C7.  The portal reports a dataset that belongs to no organization with
  \<open>"organization": null\<close>, as dataset \<open>X\<close> here.  The default \<open>{}\<close> in
  \<open>source_dataset.get("organization", {})\<close> only stands in for a missing key, so the
  \<open>.get("id")\<close> that follows is called on \<open>None\<close>: after the one fetch, the call raises
  instead of returning the empty list.
\<close>

theorem related_no_organization_raises:
  "get_related_datasets demo_env ''X'' ''organization'' 10 (demo_client, demo_world) =
     (Inl (AttributeError (sq @ ''NoneType'' @ sq @ '' object has no attribute '' @ sq @ ''get'' @ sq)),
      (demo_client\<lparr>cache := (cache demo_client)(''GET:package_show?id=X:'' \<mapsto>
           \<lparr>entry_timestamp = 1001, entry_data = demo_dataset_x\<rparr>)\<rparr>,
       \<lparr>clock = 1001,
        sent = [the_request demo_env demo_client ''GET'' ''package_show?id=X'' None]\<rparr>))"
  by (simp add: get_related_datasets_def sbind_def demo_fetch_x)
     (simp add: demo_dataset_x_def ebind_def pure_def no_attribute_def)

text \<open>
  What does hold: when the key is missing altogether, the result is empty and nothing
  is requested after the fetch; and the results of a search that ran do not contain the
  source dataset and are at most \<open>max_results\<close> many, for a \<open>max_results\<close> that is not
  negative.
\<close>

lemma related_organization_absent:
  "make_request E ''GET'' (''package_show?id='' @ dataset_id) None True s = (Inr (JDict d), s1) \<Longrightarrow>
   map_of d ''organization'' = None \<Longrightarrow>
   get_related_datasets E dataset_id ''organization'' max_results s = (Inr [], s1)"
  by (simp add: get_related_datasets_def sbind_def pure_def ebind_def slice_to_def)

lemma others_filter:
  "others dataset_id dss = Inr r \<Longrightarrow>
   r = filter (\<lambda>ds. subscript ds ''id'' \<noteq> Inr (JStr dataset_id)) dss"
proof (induction dss arbitrary: r)
  case Nil
  then show ?case by simp
next
  case (Cons ds dss)
  then show ?case by (auto simp: ebind_Inr split: if_splits)
qed

lemma slice_to_length: "0 \<le> n \<Longrightarrow> length (slice_to xs n) \<le> nat n"
  by (simp add: slice_to_def)

lemma related_search_results:
  "search_related E dataset_id query s = (Inr found, s') \<Longrightarrow> 0 \<le> max_results \<Longrightarrow>
   (\<forall>ds \<in> set (slice_to found max_results). subscript ds ''id'' \<noteq> Inr (JStr dataset_id)) \<and>
   length (slice_to found max_results) \<le> nat max_results"
proof -
  assume run: "search_related E dataset_id query s = (Inr found, s')" and n: "0 \<le> max_results"
  from run obtain dss where "others dataset_id dss = Inr found"
    by (auto simp: search_related_def sbind_def pure_def ebind_Inr split: prod.splits sum.splits)
  then have "found = filter (\<lambda>ds. subscript ds ''id'' \<noteq> Inr (JStr dataset_id)) dss"
    by (rule others_filter)
  then have "\<forall>ds \<in> set found. subscript ds ''id'' \<noteq> Inr (JStr dataset_id)" by simp
  moreover have "set (slice_to found max_results) \<subseteq> set found"
    by (simp add: slice_to_def set_take_subset)
  ultimately show ?thesis using n by (auto simp: slice_to_length)
qed

section \<open>Preview of a resource without datastore\<close>

lemma resource_summary_dict:
  "resource_summary resource_id (JDict resource) =
     Inr [(''resource_id'', JStr resource_id),
          (''resource_name'', field_of resource ''name''),
          (''format'', field_of resource ''format''),
          (''url'', field_of resource ''url''),
          (''size'', field_of resource ''size''),
          (''created'', field_of resource ''created''),
          (''last_modified'', field_of resource ''last_modified'')]"
  by (simp add: resource_summary_def ebind_def field_of_def)

text \<open>
  Claim C8.  The resource was fetched and the datastore query that follows raises.  Then
  \<open>preview_resource\<close> returns a preview all the same: \<open>preview_data\<close> is \<open>None\<close>, the note
  says that the datastore is not available, the seven entries made from the resource are
  what the resource holds, and the envelope \<open>handle_call_tool\<close> wraps around the preview
  has \<open>success\<close> true and the preview as its \<open>data\<close>.
\<close>

theorem preview_without_datastore:
  "make_request E ''GET'' (''resource_show?id='' @ resource_id) None True (c, w) =
     (Inr (JDict resource), s1) \<Longrightarrow>
   make_request E ''GET''
     (''datastore_search?resource_id='' @ resource_id @ ''&limit='' @ str_int preview_rows)
     None True s1 = (Inl e, s2) \<Longrightarrow>
   (\<exists>preview.
      preview_resource E resource_id preview_rows generate_stats (c, w) = (Inr (JDict preview), s2) \<and>
      map_of preview ''preview_data'' = Some JNull \<and>
      map_of preview ''note'' = Some (JStr ''DataStore not available for this resource'') \<and>
      map_of preview ''resource_id'' = Some (JStr resource_id) \<and>
      map_of preview ''resource_name'' = Some (field_of resource ''name'') \<and>
      map_of preview ''format'' = Some (field_of resource ''format'') \<and>
      map_of preview ''url'' = Some (field_of resource ''url'') \<and>
      map_of preview ''size'' = Some (field_of resource ''size'') \<and>
      map_of preview ''created'' = Some (field_of resource ''created'') \<and>
      map_of preview ''last_modified'' = Some (field_of resource ''last_modified'') \<and>
      map_of (fst (handle_call_tool E ''ckan_resource_preview'' arguments
                     (preview_resource E resource_id preview_rows generate_stats) (Some c, w)))
        ''success'' = Some (JBool True) \<and>
      map_of (fst (handle_call_tool E ''ckan_resource_preview'' arguments
                     (preview_resource E resource_id preview_rows generate_stats) (Some c, w)))
        ''data'' = Some (JDict preview))"
proof -
  assume primary: "make_request E ''GET'' (''resource_show?id='' @ resource_id) None True (c, w) =
     (Inr (JDict resource), s1)"
    and secondary: "make_request E ''GET''
     (''datastore_search?resource_id='' @ resource_id @ ''&limit='' @ str_int preview_rows)
     None True s1 = (Inl e, s2)"
  let ?summary = "[(''resource_id'', JStr resource_id),
          (''resource_name'', field_of resource ''name''),
          (''format'', field_of resource ''format''),
          (''url'', field_of resource ''url''),
          (''size'', field_of resource ''size''),
          (''created'', field_of resource ''created''),
          (''last_modified'', field_of resource ''last_modified'')]"
  have run: "preview_resource E resource_id preview_rows generate_stats (c, w) =
          (Inr (JDict (datastore_unavailable ?summary)), s2)"
    using primary secondary
    by (simp add: preview_resource_def sbind_def pure_def resource_summary_dict)
  have fields: "map_of (datastore_unavailable ?summary) =
      (map_of ?summary)(''preview_data'' \<mapsto> JNull,
         ''note'' \<mapsto> JStr ''DataStore not available for this resource'')"
    by (simp only: datastore_unavailable_def update_conv')
  have env: "fst (handle_call_tool E ''ckan_resource_preview'' arguments
                     (preview_resource E resource_id preview_rows generate_stats) (Some c, w)) =
       to_dict (set_execution_time (clock w) (clock (snd s2))
                  (StandardResponse E (clock (snd s2)) True (JDict (datastore_unavailable ?summary)) JNull))"
    by (simp add: handle_call_tool_def Let_def run)
  show ?thesis
    unfolding env run
    by (simp add: fields to_dict_def StandardResponse_def set_execution_time_def)
qed

theorem preview_without_datastore_witness:
  "fst (preview_resource demo_env ''R'' 10 True (demo_client, demo_world)) =
     Inr (JDict [(''resource_id'', JStr ''R''), (''resource_name'', JStr ''r''),
                 (''format'', JStr ''CSV''), (''url'', JStr ''http://f/1''),
                 (''size'', JNull), (''created'', JNull), (''last_modified'', JNull),
                 (''preview_data'', JNull),
                 (''note'', JStr ''DataStore not available for this resource'')]) \<and>
   map_of (fst (handle_call_tool demo_env ''ckan_resource_preview'' (JDict [(''resource_id'', JStr ''R'')])
                  (preview_resource demo_env ''R'' 10 True) (Some demo_client, demo_world)))
     ''success'' = Some (JBool True)"
proof -
  have p: "make_request demo_env ''GET'' (''resource_show?id='' @ ''R'') None True
             (demo_client, demo_world) =
           (Inr (JDict [(''id'', JStr ''R''), (''name'', JStr ''r''), (''format'', JStr ''CSV''),
                        (''url'', JStr ''http://f/1'')]),
            (demo_client\<lparr>cache := (cache demo_client)(''GET:resource_show?id=R:'' \<mapsto>
                 \<lparr>entry_timestamp = 1001, entry_data = demo_resource\<rparr>)\<rparr>,
             \<lparr>clock = 1001,
              sent = [the_request demo_env demo_client ''GET'' ''resource_show?id=R'' None]\<rparr>))"
    using demo_fetch_r by (simp add: demo_resource_def)
  have q: "make_request demo_env ''GET''
             (''datastore_search?resource_id='' @ ''R'' @ ''&limit='' @ str_int 10) None True
             (demo_client\<lparr>cache := (cache demo_client)(''GET:resource_show?id=R:'' \<mapsto>
                 \<lparr>entry_timestamp = 1001, entry_data = demo_resource\<rparr>)\<rparr>,
             \<lparr>clock = 1001,
              sent = [the_request demo_env demo_client ''GET'' ''resource_show?id=R'' None]\<rparr>) =
           (Inl (Exception ''Request failed: CKAN API Error: <value>''),
            (demo_client\<lparr>cache := (cache demo_client)(''GET:resource_show?id=R:'' \<mapsto>
                 \<lparr>entry_timestamp = 1001, entry_data = demo_resource\<rparr>)\<rparr>,
             \<lparr>clock = 1002,
              sent = [the_request demo_env demo_client ''GET'' ''resource_show?id=R'' None,
                      the_request demo_env demo_client ''GET''
                        ''datastore_search?resource_id=R&limit=10'' None]\<rparr>))"
    using demo_datastore_r by (simp add: str_int_10)
  from preview_without_datastore [OF p q, of True "JDict [(''resource_id'', JStr ''R'')]"]
  obtain preview where
    run: "preview_resource demo_env ''R'' 10 True (demo_client, demo_world) =
            (Inr (JDict preview),
             (demo_client\<lparr>cache := (cache demo_client)(''GET:resource_show?id=R:'' \<mapsto>
                 \<lparr>entry_timestamp = 1001, entry_data = demo_resource\<rparr>)\<rparr>,
             \<lparr>clock = 1002,
              sent = [the_request demo_env demo_client ''GET'' ''resource_show?id=R'' None,
                      the_request demo_env demo_client ''GET''
                        ''datastore_search?resource_id=R&limit=10'' None]\<rparr>))"
    and ok: "map_of (fst (handle_call_tool demo_env ''ckan_resource_preview''
                     (JDict [(''resource_id'', JStr ''R'')])
                     (preview_resource demo_env ''R'' 10 True) (Some demo_client, demo_world)))
        ''success'' = Some (JBool True)"
    by blast
  have "fst (preview_resource demo_env ''R'' 10 True (demo_client, demo_world)) =
     Inr (JDict [(''resource_id'', JStr ''R''), (''resource_name'', JStr ''r''),
                 (''format'', JStr ''CSV''), (''url'', JStr ''http://f/1''),
                 (''size'', JNull), (''created'', JNull), (''last_modified'', JNull),
                 (''preview_data'', JNull),
                 (''note'', JStr ''DataStore not available for this resource'')])"
    using demo_fetch_r demo_datastore_r
    by (simp add: preview_resource_def sbind_def pure_def str_int_10)
       (simp add: resource_summary_def demo_resource_def ebind_def datastore_unavailable_def)
  with ok show ?thesis by simp
qed

section \<open>Cache keys\<close>

subsection \<open>Bodies with the same items\<close>

lemma sort_key_fst_unique:
  assumes "distinct (map fst xs)" "distinct (map fst ys)" "map_of xs = map_of ys"
  shows "sort_key fst xs = sort_key fst ys"
proof -
  from assms have s: "set xs = set ys"
    by (simp add: map_of_inject_set)
  from assms(1) have "inj_on fst (set xs)"
    by (simp add: distinct_map)
  with s have inj: "inj_on fst (set (sort_key fst xs) \<union> set (sort_key fst ys))"
    by simp
  have dx: "distinct (map fst (sort_key fst xs))"
    using assms(1) by (simp add: distinct_map)
  have dy: "distinct (map fst (sort_key fst ys))"
    using assms(2) by (simp add: distinct_map)
  show ?thesis
    by (rule map_sorted_distinct_set_unique [OF inj _ dx _ dy]) (simp_all add: s)
qed

lemma sort_key_canon:
  "sort_key fst (map (\<lambda>kv. (fst kv, f (snd kv))) (sort_key fst kvs)) =
   map (\<lambda>kv. (fst kv, f (snd kv))) (sort_key fst kvs)"
  by (rule sort_key_id_if_sorted) (simp add: comp_def)

lemma dumps_canon: "dumps_sorted E (canon v) = dumps_sorted E v"
proof (induction E v rule: dumps_sorted.induct)
  case (6 E xs)
  then have "map (\<lambda>x. dumps_sorted E (canon x)) xs = map (dumps_sorted E) xs"
    by (intro map_cong) simp_all
  then show ?case
    by (simp only: canon.simps dumps_sorted.simps map_map comp_def)
next
  case (7 E kvs)
  then have h: "map (\<lambda>kv. encode_basestring (fst kv) @ '': '' @ dumps_sorted E (canon (snd kv)))
               (sort_key fst kvs) =
             map (\<lambda>kv. encode_basestring (fst kv) @ '': '' @ dumps_sorted E (snd kv))
               (sort_key fst kvs)"
    by (intro map_cong) simp_all
  show ?case
    by (simp only: canon.simps dumps_sorted.simps sort_key_canon map_map comp_def
          fst_conv snd_conv h)
qed simp_all

lemma body_text_canon:
  "body_text E b = (case canon_body b of None \<Rightarrow> [] | Some v \<Rightarrow> dumps_sorted E v)"
  using dumps_canon [of E "JDict (the b)"]
  by (cases b) (simp_all add: body_text_def canon_body_def del: dumps_sorted.simps canon.simps)

subsection \<open>The string literals of a serialised value\<close>

text \<open>Every text that \<open>json.dumps\<close> writes leaves the scanner outside a literal.\<close>

lemma scan_append:
  "scan q (a @ b) = (case scan q a of None \<Rightarrow> None | Some q' \<Rightarrow> scan q' b)"
  by (induction a arbitrary: q) (auto split: option.splits)

lemma scan_outside_plain:
  "\<forall>c\<in>set t. c \<noteq> CHR 0x22 \<and> c \<noteq> CHR 0x5C \<and> c \<noteq> CHR '':'' \<Longrightarrow> scan Outside t = Some Outside"
  by (induction t) auto

lemma scan_inside_plain:
  "\<forall>c\<in>set t. c \<noteq> CHR 0x22 \<and> c \<noteq> CHR 0x5C \<Longrightarrow> scan Inside t = Some Inside"
  by (induction t) auto

lemma digit_char_digit: "d < 10 \<Longrightarrow> digit_char d \<in> digits"
  unfolding digit_char_def digits_def by (rule nth_mem) simp

lemma hex_digit_hex: "d < 16 \<Longrightarrow> hex_digit d \<in> set ''0123456789abcdef''"
  unfolding hex_digit_def by (rule nth_mem) simp

lemma str_nat_digits: "set (str_nat n) \<subseteq> digits"
proof (induction n rule: str_nat.induct)
  case (1 n)
  show ?case
  proof (cases "n < 10")
    case True
    then have "str_nat n = [digit_char n]" by (subst str_nat.simps) simp
    with True show ?thesis by (simp add: digit_char_digit)
  next
    case False
    then have e: "str_nat n = str_nat (n div 10) @ [digit_char (n mod 10)]"
      by (subst str_nat.simps) simp
    have "digit_char (n mod 10) \<in> digits" by (rule digit_char_digit) simp
    moreover from False have "set (str_nat (n div 10)) \<subseteq> digits" by (rule 1)
    ultimately show ?thesis by (simp add: e)
  qed
qed

lemma digits_number: "digits \<subseteq> number_chars"
  by (simp add: digits_def number_chars_def)

lemma str_int_chars: "set (str_int i) \<subseteq> number_chars"
proof -
  have "CHR ''-'' \<in> number_chars" by (simp add: number_chars_def)
  moreover have "set (str_nat n) \<subseteq> number_chars" for n
    using str_nat_digits digits_number by blast
  ultimately show ?thesis by (simp add: str_int_def)
qed

lemma number_chars_plain:
  "c \<in> number_chars \<Longrightarrow> c \<noteq> CHR 0x22 \<and> c \<noteq> CHR 0x5C \<and> c \<noteq> CHR '':''"
  by (auto simp: number_chars_def)

lemma scan_number: "set t \<subseteq> number_chars \<Longrightarrow> scan Outside t = Some Outside"
  by (rule scan_outside_plain) (blast dest: number_chars_plain)

lemma scan_str_int: "scan Outside (str_int i) = Some Outside"
  by (rule scan_number) (rule str_int_chars)

lemma scan_escape_char: "scan Inside (escape_char c) = Some Inside"
proof -
  have d1: "of_char c div 16 < (16::nat)"
    using nat_of_char_less_256 [of c] by (simp add: less_mult_imp_div_less)
  have d2: "of_char c mod 16 < (16::nat)" by simp
  have h: "hex_digit d \<noteq> CHR 0x22 \<and> hex_digit d \<noteq> CHR 0x5C" if "d < 16" for d
    using hex_digit_hex [OF that] by auto
  from h [OF d1] h [OF d2] show ?thesis
    by (simp add: escape_char_def)
qed

lemma scan_escaped: "scan Inside (concat (map escape_char s)) = Some Inside"
  by (induction s) (simp_all add: scan_append scan_escape_char)

lemma scan_encode: "scan Outside (encode_basestring s) = Some Outside"
  by (simp add: encode_basestring_def scan_append scan_escaped)

lemma scan_join:
  "\<forall>p\<in>set parts. scan Outside p = Some Outside \<Longrightarrow> scan Outside (join '', '' parts) = Some Outside"
proof (induction parts rule: induct_list012)
  case 1
  show ?case by simp
next
  case (2 p)
  then show ?case by simp
next
  case (3 p q ps)
  then show ?case by (simp add: scan_append)
qed

lemma scan_dumps:
  assumes "float_text E"
  shows "scan Outside (dumps_sorted E v) = Some Outside"
proof (induction v)
  case JNull
  show ?case by simp
next
  case (JBool b)
  show ?case by simp
next
  case (JInt i)
  show ?case by (simp add: scan_str_int)
next
  case (JFloat r)
  from assms have "set (repr E (JFloat r)) \<subseteq> number_chars" by (simp add: float_text_def)
  then show ?case by (simp add: scan_number)
next
  case (JStr s)
  show ?case by (simp add: scan_encode)
next
  case (JList xs)
  then have "scan Outside (join '', '' (map (dumps_sorted E) xs)) = Some Outside"
    by (intro scan_join) simp
  then show ?case by (simp add: scan_append)
next
  case (JDict kvs)
  have "scan Outside (encode_basestring (fst kv) @ '': '' @ dumps_sorted E (snd kv)) = Some Outside"
    if "kv \<in> set kvs" for kv
  proof -
    have "snd kv \<in> Basic_BNFs.snds kv" by (cases kv) simp
    with JDict that have "scan Outside (dumps_sorted E (snd kv)) = Some Outside" by blast
    then show ?thesis by (simp add: scan_append scan_encode)
  qed
  then have "scan Outside (join '', ''
        (map (\<lambda>kv. encode_basestring (fst kv) @ '': '' @ dumps_sorted E (snd kv))
           (sort_key fst kvs))) = Some Outside"
    by (intro scan_join) simp
  then show ?case by (simp add: scan_append)
qed

text \<open>
  So no dict can be written after a colon that ends in a text of the same kind: read from
  that colon, the scanner would take the blanks after the colons of the dict for the
  inside of literals.
\<close>

lemma opposite_step:
  "opposite a b \<Longrightarrow> step a c = Some a' \<Longrightarrow> step b c = Some b' \<Longrightarrow> opposite a' b'"
  by (cases a; cases b) (auto split: if_splits)

lemma opposite_scan:
  "opposite a b \<Longrightarrow> scan a t = Some a' \<Longrightarrow> scan b t = Some b' \<Longrightarrow> opposite a' b'"
proof (induction t arbitrary: a b)
  case Nil
  then show ?case by simp
next
  case (Cons c t)
  then show ?case
    by (auto split: option.splits dest: opposite_step)
qed

lemma no_dump_after_colon:
  assumes "scan Outside (w @ CHR '':'' # CHR ''{'' # t) = Some Outside"
  shows "scan Outside (CHR ''{'' # t) \<noteq> Some Outside"
proof
  assume valid: "scan Outside (CHR ''{'' # t) = Some Outside"
  from assms obtain q where q: "scan Outside w = Some q"
    and rest: "scan q (CHR '':'' # CHR ''{'' # t) = Some Outside"
    by (auto simp: scan_append split: option.splits)
  from rest have "scan Inside (CHR ''{'' # t) = Some Outside"
    by (cases q) (auto split: if_splits option.splits)
  with valid have "opposite Outside Outside"
    using opposite_scan [of Inside Outside "CHR ''{'' # t" Outside Outside] by simp
  then show False by simp
qed

subsection \<open>Method, endpoint and body text from the hashed string\<close>

lemma split_at_colon:
  "c \<notin> set a \<Longrightarrow> c \<notin> set b \<Longrightarrow> a @ c # x = b @ c # y \<Longrightarrow> a = b \<and> x = y"
proof (induction a arbitrary: b)
  case Nil
  then show ?case by (cases b) auto
next
  case (Cons h a)
  then show ?case by (cases b) auto
qed

lemma body_text_shape:
  "body_text E b = [] \<or> (\<exists>t. body_text E b = CHR ''{'' # t @ ''}'')"
  by (auto simp: body_text_def split: option.splits)

lemma body_text_empty: "body_text E b = [] \<longleftrightarrow> b = None \<or> b = Some []"
  by (auto simp: body_text_def split: option.splits)

lemma scan_body_text: "float_text E \<Longrightarrow> scan Outside (body_text E b) = Some Outside"
  by (cases b) (simp_all add: body_text_def scan_dumps del: dumps_sorted.simps)

lemma body_not_after_colon:
  assumes f: "float_text E"
    and eq: "body_text E b2 = us @ body_text E b1"
    and us: "us \<noteq> []" "last us = CHR '':''"
  shows False
proof -
  from us obtain w where w: "us = w @ [CHR '':'']"
    by (metis append_butlast_last_id)
  from body_text_shape [of E b1] show False
  proof
    assume "body_text E b1 = []"
    with eq w have "body_text E b2 = w @ [CHR '':'']" by simp
    with body_text_shape [of E b2] show False by auto
  next
    assume "\<exists>t. body_text E b1 = CHR ''{'' # t @ ''}''"
    then obtain t where t: "body_text E b1 = CHR ''{'' # t @ ''}''" ..
    from f have "scan Outside (body_text E b2) = Some Outside" by (rule scan_body_text)
    with eq w t have "scan Outside (w @ CHR '':'' # CHR ''{'' # (t @ ''}'')) = Some Outside"
      by simp
    then have "scan Outside (CHR ''{'' # (t @ ''}'')) \<noteq> Some Outside"
      by (rule no_dump_after_colon)
    moreover from f have "scan Outside (body_text E b1) = Some Outside" by (rule scan_body_text)
    ultimately show False by (simp add: t)
  qed
qed

lemma tail_unique:
  assumes f: "float_text E"
    and eq: "e1 @ '':'' @ body_text E b1 = e2 @ '':'' @ body_text E b2"
  shows "e1 = e2 \<and> body_text E b1 = body_text E b2"
proof -
  from eq have "(e1 @ '':'') @ body_text E b1 = (e2 @ '':'') @ body_text E b2" by simp
  then obtain us where
    "e1 @ '':'' = (e2 @ '':'') @ us \<and> us @ body_text E b1 = body_text E b2 \<or>
     (e1 @ '':'') @ us = e2 @ '':'' \<and> body_text E b1 = us @ body_text E b2"
    unfolding append_eq_append_conv2 by blast
  then show ?thesis
  proof
    assume a: "e1 @ '':'' = (e2 @ '':'') @ us \<and> us @ body_text E b1 = body_text E b2"
    show ?thesis
    proof (cases "us = []")
      case True
      with a show ?thesis by simp
    next
      case False
      with a have "last us = CHR '':''" by (metis last_appendR last_snoc)
      with f a False have False
        using body_not_after_colon [of E b2 us b1] by simp
      then show ?thesis ..
    qed
  next
    assume a: "(e1 @ '':'') @ us = e2 @ '':'' \<and> body_text E b1 = us @ body_text E b2"
    show ?thesis
    proof (cases "us = []")
      case True
      with a show ?thesis by simp
    next
      case False
      with a have "last us = CHR '':''" by (metis last_appendR last_snoc)
      with f a False have False
        using body_not_after_colon [of E b1 us b2] by simp
      then show ?thesis ..
    qed
  qed
qed

lemma cache_data_unique:
  assumes "CHR '':'' \<notin> set m1" "CHR '':'' \<notin> set m2" "float_text E"
    and "cache_data E m1 e1 b1 = cache_data E m2 e2 b2"
  shows "m1 = m2 \<and> e1 = e2 \<and> body_text E b1 = body_text E b2"
proof -
  from assms(4) have "m1 @ CHR '':'' # (e1 @ '':'' @ body_text E b1) =
                      m2 @ CHR '':'' # (e2 @ '':'' @ body_text E b2)"
    by (simp add: cache_data_def)
  with assms(1,2) have "m1 = m2 \<and> e1 @ '':'' @ body_text E b1 = e2 @ '':'' @ body_text E b2"
    by (intro split_at_colon)
  with assms(3) show ?thesis using tail_unique by blast
qed

subsection \<open>Numbers and string literals are read back uniquely\<close>

lemma float_printer_text: "float_printer E \<Longrightarrow> float_text E"
  by (simp add: float_printer_def float_text_def)

lemma digit_char_inj: "a < 10 \<Longrightarrow> b < 10 \<Longrightarrow> digit_char a = digit_char b \<Longrightarrow> a = b"
  unfolding digit_char_def by (subst (asm) nth_eq_iff_index_eq) simp_all

lemma hex_digit_inj: "a < 16 \<Longrightarrow> b < 16 \<Longrightarrow> hex_digit a = hex_digit b \<Longrightarrow> a = b"
  unfolding hex_digit_def by (subst (asm) nth_eq_iff_index_eq) simp_all

lemma str_nat_nonempty: "str_nat n \<noteq> []"
  by (subst str_nat.simps) simp

lemma str_nat_small: "n < 10 \<Longrightarrow> str_nat n = [digit_char n]"
  by (subst str_nat.simps) simp

lemma str_nat_large: "\<not> n < 10 \<Longrightarrow> str_nat n = str_nat (n div 10) @ [digit_char (n mod 10)]"
  by (subst str_nat.simps) simp

lemma str_nat_inj: "str_nat n = str_nat m \<Longrightarrow> n = m"
proof (induction n arbitrary: m rule: str_nat.induct)
  case (1 n)
  show ?case
  proof (cases "n < 10")
    case n: True
    show ?thesis
    proof (cases "m < 10")
      case True
      with n "1.prems" show ?thesis
        by (auto simp: str_nat_small dest: digit_char_inj)
    next
      case False
      with n "1.prems" have "[digit_char n] = str_nat (m div 10) @ [digit_char (m mod 10)]"
        by (simp add: str_nat_small str_nat_large)
      then have "str_nat (m div 10) = []" by simp
      then show ?thesis by (simp add: str_nat_nonempty)
    qed
  next
    case n: False
    show ?thesis
    proof (cases "m < 10")
      case True
      with n "1.prems" have "str_nat (n div 10) @ [digit_char (n mod 10)] = [digit_char m]"
        by (simp add: str_nat_small str_nat_large)
      then have "str_nat (n div 10) = []" by simp
      then show ?thesis by (simp add: str_nat_nonempty)
    next
      case False
      with n "1.prems" have "str_nat (n div 10) = str_nat (m div 10)"
        and d: "digit_char (n mod 10) = digit_char (m mod 10)"
        by (simp_all add: str_nat_large)
      with n have "n div 10 = m div 10" using "1.IH" by blast
      moreover from d have "n mod 10 = m mod 10" by (intro digit_char_inj) simp_all
      ultimately show ?thesis by (metis div_mult_mod_eq)
    qed
  qed
qed

lemma minus_not_digit: "CHR ''-'' \<notin> digits"
  by (simp add: digits_def)

lemma str_nat_hd: "hd (str_nat n) \<in> digits"
  using str_nat_digits [of n] str_nat_nonempty [of n] by (cases "str_nat n") auto

lemma str_int_inj: "str_int i = str_int j \<Longrightarrow> i = j"
proof -
  assume e: "str_int i = str_int j"
  have neg: "hd (str_int k) = CHR ''-''" if "k < 0" for k
    using that by (simp add: str_int_def)
  have pos: "hd (str_int k) \<noteq> CHR ''-''" if "\<not> k < 0" for k
    using that str_nat_hd [of "nat k"] minus_not_digit by (auto simp: str_int_def)
  show ?thesis
  proof (cases "i < 0")
    case True
    with e pos [of j] neg [of i] have j: "j < 0" by auto
    with True e have "str_nat (nat (- i)) = str_nat (nat (- j))" by (simp add: str_int_def)
    then have "nat (- i) = nat (- j)" by (rule str_nat_inj)
    with True j show ?thesis by simp
  next
    case False
    with e pos [of i] neg [of j] have j: "\<not> j < 0" by auto
    with False e have "str_nat (nat i) = str_nat (nat j)" by (simp add: str_int_def)
    then have "nat i = nat j" by (rule str_nat_inj)
    with False j show ?thesis by simp
  qed
qed

lemma str_int_int_chars: "set (str_int i) \<subseteq> int_chars"
  using str_nat_digits by (auto simp: str_int_def int_chars_def)

lemma str_int_nonempty: "str_int i \<noteq> []"
  by (simp add: str_int_def str_nat_nonempty)

lemma closing_not_number: "closing r \<Longrightarrow> r = [] \<or> hd r \<notin> number_chars"
  by (auto simp: closing_def number_chars_def)

lemma token_unique:
  assumes "set t1 \<subseteq> number_chars" "set t2 \<subseteq> number_chars" "closing r1" "closing r2"
    and "t1 @ r1 = t2 @ r2"
  shows "t1 = t2 \<and> r1 = r2"
proof -
  have tw: "takeWhile (\<lambda>c. c \<in> number_chars) (t @ r) = t"
    if "set t \<subseteq> number_chars" "closing r" for t r
  proof (cases r)
    case Nil
    with that show ?thesis by (simp add: subset_iff)
  next
    case (Cons c cs)
    with that closing_not_number [of r] have "c \<notin> number_chars" by simp
    with Cons that show ?thesis by (simp add: takeWhile_append2 subset_iff)
  qed
  have "takeWhile (\<lambda>c. c \<in> number_chars) (t1 @ r1) = t1"
    using assms(1,3) by (rule tw)
  moreover have "takeWhile (\<lambda>c. c \<in> number_chars) (t2 @ r2) = t2"
    using assms(2,4) by (rule tw)
  ultimately have "t1 = t2" using assms(5) by metis
  with assms(5) show ?thesis by simp
qed

lemma hex_pair_inj:
  assumes "hex_digit (of_char c1 div 16) = hex_digit (of_char c2 div 16)"
    and "hex_digit (of_char c1 mod 16) = hex_digit (of_char c2 mod 16)"
  shows "c1 = c2"
proof -
  have d: "of_char c div 16 < (16::nat)" for c
    using nat_of_char_less_256 [of c] by (simp add: less_mult_imp_div_less)
  from assms(1) have 1: "(of_char c1 :: nat) div 16 = of_char c2 div 16"
    by (intro hex_digit_inj d)
  from assms(2) have 2: "(of_char c1 :: nat) mod 16 = of_char c2 mod 16"
    by (intro hex_digit_inj) simp_all
  from 1 2 have "(of_char c1 :: nat) = of_char c2" by (metis div_mult_mod_eq)
  then show ?thesis by simp
qed

lemma escape_char_shape:
  "(escape_char c = [c] \<and> c \<noteq> CHR 0x5C \<and> c \<noteq> CHR 0x22) \<or>
   (\<exists>x. escape_char c = [CHR 0x5C, x] \<and> x \<noteq> CHR ''u'') \<or>
   escape_char c = [CHR 0x5C, CHR ''u'', CHR ''0'', CHR ''0'',
                    hex_digit (of_char c div 16), hex_digit (of_char c mod 16)]"
  by (simp add: escape_char_def)

lemma escape_short_inj:
  "escape_char c1 = [CHR 0x5C, x] \<Longrightarrow> escape_char c2 = [CHR 0x5C, x] \<Longrightarrow> c1 = c2"
  by (auto simp: escape_char_def split: if_splits)

lemma escape_char_prefix:
  assumes "escape_char c1 @ a = escape_char c2 @ b"
  shows "c1 = c2"
proof -
  consider
    (plain) "escape_char c1 = [c1]" "c1 \<noteq> CHR 0x5C"
  | (short) x where "escape_char c1 = [CHR 0x5C, x]" "x \<noteq> CHR ''u''"
  | (long) "escape_char c1 = [CHR 0x5C, CHR ''u'', CHR ''0'', CHR ''0'',
                    hex_digit (of_char c1 div 16), hex_digit (of_char c1 mod 16)]"
    using escape_char_shape [of c1] by blast
  then show ?thesis
  proof cases
    case plain
    from escape_char_shape [of c2] plain assms show ?thesis by auto
  next
    case short
    from escape_char_shape [of c2] show ?thesis
    proof (elim disjE exE conjE)
      assume "escape_char c2 = [c2]" "c2 \<noteq> CHR 0x5C"
      with short assms show ?thesis by auto
    next
      fix y assume y: "escape_char c2 = [CHR 0x5C, y]"
      with short assms have "y = x" by auto
      with y short show ?thesis by (auto dest: escape_short_inj)
    next
      assume "escape_char c2 = [CHR 0x5C, CHR ''u'', CHR ''0'', CHR ''0'',
                    hex_digit (of_char c2 div 16), hex_digit (of_char c2 mod 16)]"
      with short assms show ?thesis by auto
    qed
  next
    case long
    from escape_char_shape [of c2] show ?thesis
    proof (elim disjE exE conjE)
      assume "escape_char c2 = [c2]" "c2 \<noteq> CHR 0x5C"
      with long assms show ?thesis by auto
    next
      fix y assume "escape_char c2 = [CHR 0x5C, y]" "y \<noteq> CHR ''u''"
      with long assms show ?thesis by auto
    next
      assume "escape_char c2 = [CHR 0x5C, CHR ''u'', CHR ''0'', CHR ''0'',
                    hex_digit (of_char c2 div 16), hex_digit (of_char c2 mod 16)]"
      with long assms show ?thesis by (auto intro: hex_pair_inj)
    qed
  qed
qed

lemma escape_char_hd: "escape_char c \<noteq> [] \<and> hd (escape_char c) \<noteq> CHR 0x22"
  using escape_char_shape [of c] by auto

lemma escaped_unique:
  "concat (map escape_char s1) @ CHR 0x22 # t1 = concat (map escape_char s2) @ CHR 0x22 # t2 \<Longrightarrow>
   s1 = s2 \<and> t1 = t2"
proof (induction s1 arbitrary: s2)
  case Nil
  show ?case
  proof (cases s2)
    case Nil
    with Nil.prems show ?thesis by simp
  next
    case (Cons c cs)
    with Nil.prems have "hd (escape_char c @ concat (map escape_char cs) @ CHR 0x22 # t2) = CHR 0x22"
      by (metis append_Nil append_assoc concat.simps(1,2) list.map(1,2) list.sel(1))
    with escape_char_hd [of c] show ?thesis by simp
  qed
next
  case (Cons c1 cs1)
  show ?case
  proof (cases s2)
    case Nil
    with Cons.prems have "hd (escape_char c1 @ concat (map escape_char cs1) @ CHR 0x22 # t1) = CHR 0x22"
      by simp
    with escape_char_hd [of c1] show ?thesis by simp
  next
    case (Cons c2 cs2)
    with Cons.prems have e: "escape_char c1 @ (concat (map escape_char cs1) @ CHR 0x22 # t1) =
                          escape_char c2 @ (concat (map escape_char cs2) @ CHR 0x22 # t2)"
      by simp
    then have c: "c1 = c2" by (rule escape_char_prefix)
    with e have "concat (map escape_char cs1) @ CHR 0x22 # t1 =
                 concat (map escape_char cs2) @ CHR 0x22 # t2" by simp
    then have "cs1 = cs2 \<and> t1 = t2" by (rule Cons.IH)
    with c Cons show ?thesis by simp
  qed
qed

lemma encode_unique:
  "encode_basestring s1 @ r1 = encode_basestring s2 @ r2 \<Longrightarrow> s1 = s2 \<and> r1 = r2"
  using escaped_unique [of s1 r1 s2 r2] by (simp add: encode_basestring_def)

subsection \<open>The body from its text\<close>

lemma first_chars_kind: "c \<in> first_chars v1 \<Longrightarrow> c \<in> first_chars v2 \<Longrightarrow> kind v1 = kind v2"
  by (cases v1; cases v2) (auto simp: number_chars_def split: if_splits)

lemma first_chars_not_closing: "c \<in> first_chars v \<Longrightarrow> c \<notin> set '',]}''"
  by (cases v) (auto simp: number_chars_def split: if_splits)

lemma dumps_hd:
  assumes "float_printer E"
  shows "dumps_sorted E v \<noteq> [] \<and> hd (dumps_sorted E v) \<in> first_chars v"
proof (cases v)
  case (JInt i)
  have "hd (str_int i) \<in> set (str_int i)" using str_int_nonempty by simp
  with str_int_chars [of i] JInt show ?thesis by (auto simp: str_int_nonempty)
next
  case (JFloat r)
  from assms have n: "repr E (JFloat r) \<noteq> []" and s: "set (repr E (JFloat r)) \<subseteq> number_chars"
    by (simp_all add: float_printer_def)
  from n have "hd (repr E (JFloat r)) \<in> set (repr E (JFloat r))" by simp
  with n s JFloat show ?thesis by auto
qed (simp_all add: encode_basestring_def)

lemma dumps_same_kind:
  assumes "float_printer E" "dumps_sorted E v1 @ r1 = dumps_sorted E v2 @ r2"
  shows "kind v1 = kind v2"
proof -
  from assms(1) have 1: "dumps_sorted E v1 \<noteq> []" "hd (dumps_sorted E v1) \<in> first_chars v1"
    and 2: "dumps_sorted E v2 \<noteq> []" "hd (dumps_sorted E v2) \<in> first_chars v2"
    by (simp_all add: dumps_hd)
  from assms(2) 1(1) 2(1) have "hd (dumps_sorted E v1) = hd (dumps_sorted E v2)"
    by (metis hd_append2)
  with 1 2 show ?thesis by (auto intro: first_chars_kind)
qed

lemma join_Cons: "join sep (p # ps) = p @ (if ps = [] then [] else sep @ join sep ps)"
  by (cases ps) simp_all

lemma seq_unique:
  fixes f :: "'a \<Rightarrow> string" and n :: "'a \<Rightarrow> 'b"
  assumes cl: "cl = CHR '']'' \<or> cl = CHR ''}''"
    and hd: "\<And>y. f y \<noteq> [] \<and> hd (f y) \<noteq> cl"
  shows "(\<And>x y s1 s2. x \<in> set xs \<Longrightarrow> closing s1 \<Longrightarrow> closing s2 \<Longrightarrow> f x @ s1 = f y @ s2 \<Longrightarrow>
              n x = n y \<and> s1 = s2) \<Longrightarrow>
         join '', '' (map f xs) @ cl # r1 = join '', '' (map f ys) @ cl # r2 \<Longrightarrow>
         map n xs = map n ys \<and> r1 = r2"
proof (induction xs arbitrary: ys)
  case Nil
  show ?case
  proof (cases ys)
    case Nil
    with Nil.prems show ?thesis by simp
  next
    case (Cons y ys')
    with Nil.prems(2) have "cl # r1 = f y @ (if ys' = [] then [] else '', '' @ join '', '' (map f ys')) @ cl # r2"
      by (simp add: join_Cons)
    then have "hd (f y @ (if ys' = [] then [] else '', '' @ join '', '' (map f ys')) @ cl # r2) = cl"
      by (metis list.sel(1))
    with hd [of y] show ?thesis by simp
  qed
next
  case (Cons x xs')
  show ?case
  proof (cases ys)
    case Nil
    with Cons.prems(2) have "f x @ (if xs' = [] then [] else '', '' @ join '', '' (map f xs')) @ cl # r1 = cl # r2"
      by (simp add: join_Cons)
    then have "hd (f x @ (if xs' = [] then [] else '', '' @ join '', '' (map f xs')) @ cl # r1) = cl"
      by (metis list.sel(1))
    with hd [of x] show ?thesis by simp
  next
    case ys: (Cons y ys')
    let ?R1 = "(if xs' = [] then [] else '', '' @ join '', '' (map f xs')) @ cl # r1"
    let ?R2 = "(if ys' = [] then [] else '', '' @ join '', '' (map f ys')) @ cl # r2"
    from Cons.prems(2) ys have e: "f x @ ?R1 = f y @ ?R2"
      by (simp add: join_Cons)
    have c1: "closing ?R1" and c2: "closing ?R2"
      using cl by (auto simp: closing_def)
    have "n x = n y \<and> ?R1 = ?R2"
      by (rule Cons.prems(1) [OF _ c1 c2 e]) simp
    then have nx: "n x = n y" and R: "?R1 = ?R2" by simp_all
    have "map n xs' = map n ys' \<and> r1 = r2"
    proof (cases "xs' = []")
      case True
      show ?thesis
      proof (cases "ys' = []")
        case True
        with \<open>xs' = []\<close> R show ?thesis by simp
      next
        case False
        with True R cl show ?thesis by auto
      qed
    next
      case False
      show ?thesis
      proof (cases "ys' = []")
        case True
        with False R cl show ?thesis by auto
      next
        case ys': False
        with False R have "join '', '' (map f xs') @ cl # r1 = join '', '' (map f ys') @ cl # r2"
          by simp
        then show ?thesis
          by (rule Cons.IH [rotated]) (rule Cons.prems(1), simp_all)
      qed
    qed
    with nx ys show ?thesis by simp
  qed
qed

lemma closing_cases: "closing (CHR '','' # t)" "closing (CHR '']'' # t)" "closing (CHR ''}'' # t)" "closing []"
  by (simp_all add: closing_def)

lemma dumps_unique:
  assumes fp: "float_printer E"
  shows "closing r1 \<Longrightarrow> closing r2 \<Longrightarrow> dumps_sorted E v1 @ r1 = dumps_sorted E v2 @ r2 \<Longrightarrow>
         canon v1 = canon v2 \<and> r1 = r2"
proof (induction v1 arbitrary: v2 r1 r2)
  case JNull
  from fp JNull.prems(3) have "kind JNull = kind v2" by (rule dumps_same_kind)
  then have "v2 = JNull" by (cases v2) (simp_all split: if_splits)
  with JNull.prems show ?case by simp
next
  case (JBool b)
  from fp JBool.prems(3) have "kind (JBool b) = kind v2" by (rule dumps_same_kind)
  then have "v2 = JBool b" by (cases v2) (simp_all split: if_splits)
  with JBool.prems show ?case by simp
next
  case (JInt i)
  from fp JInt.prems(3) have k: "kind (JInt i) = kind v2" by (rule dumps_same_kind)
  show ?case
  proof (cases v2)
    case (JInt j)
    with JInt.prems have "str_int i @ r1 = str_int j @ r2" by simp
    with JInt.prems(1,2) have "str_int i = str_int j \<and> r1 = r2"
      by (intro token_unique str_int_chars)
    with JInt show ?thesis by (auto dest: str_int_inj)
  next
    case (JFloat y)
    from fp have s: "set (repr E (JFloat y)) \<subseteq> number_chars"
      and n: "\<not> set (repr E (JFloat y)) \<subseteq> int_chars"
      by (simp_all add: float_printer_def)
    from JFloat JInt.prems have "str_int i @ r1 = repr E (JFloat y) @ r2" by simp
    with JInt.prems(1,2) s have "str_int i = repr E (JFloat y) \<and> r1 = r2"
      by (intro token_unique str_int_chars)
    with n str_int_int_chars [of i] show ?thesis by simp
  qed (use k in \<open>simp_all split: if_splits\<close>)
next
  case (JFloat x)
  from fp JFloat.prems(3) have k: "kind (JFloat x) = kind v2" by (rule dumps_same_kind)
  from fp have sx: "set (repr E (JFloat x)) \<subseteq> number_chars"
    and nx: "\<not> set (repr E (JFloat x)) \<subseteq> int_chars"
    by (simp_all add: float_printer_def)
  show ?case
  proof (cases v2)
    case (JInt j)
    with JFloat.prems have "repr E (JFloat x) @ r1 = str_int j @ r2" by simp
    with JFloat.prems(1,2) sx have "repr E (JFloat x) = str_int j \<and> r1 = r2"
      by (intro token_unique str_int_chars)
    with nx str_int_int_chars [of j] show ?thesis by simp
  next
    case (JFloat y)
    from fp have sy: "set (repr E (JFloat y)) \<subseteq> number_chars"
      and inj: "inj (\<lambda>x. repr E (JFloat x))"
      by (simp_all add: float_printer_def)
    from JFloat JFloat.prems have "repr E (JFloat x) @ r1 = repr E (JFloat y) @ r2" by simp
    with JFloat.prems(1,2) sx sy have "repr E (JFloat x) = repr E (JFloat y) \<and> r1 = r2"
      by (intro token_unique)
    with inj JFloat show ?thesis by (auto dest: injD)
  qed (use k in \<open>simp_all split: if_splits\<close>)
next
  case (JStr s)
  from fp JStr.prems(3) have k: "kind (JStr s) = kind v2" by (rule dumps_same_kind)
  then obtain s' where v2: "v2 = JStr s'" by (cases v2) (simp_all split: if_splits)
  with JStr.prems have "encode_basestring s @ r1 = encode_basestring s' @ r2" by simp
  then have "s = s' \<and> r1 = r2" by (rule encode_unique)
  with v2 show ?case by simp
next
  case (JList xs)
  from fp JList.prems(3) have k: "kind (JList xs) = kind v2" by (rule dumps_same_kind)
  then obtain ys where v2: "v2 = JList ys" by (cases v2) (simp_all split: if_splits)
  with JList.prems have e: "join '', '' (map (dumps_sorted E) xs) @ CHR '']'' # r1 =
                           join '', '' (map (dumps_sorted E) ys) @ CHR '']'' # r2" by simp
  have hd: "dumps_sorted E y \<noteq> [] \<and> hd (dumps_sorted E y) \<noteq> CHR '']''" for y
    using dumps_hd [OF fp, of y] first_chars_not_closing [of "hd (dumps_sorted E y)" y] by auto
  have "map canon xs = map canon ys \<and> r1 = r2"
  proof (rule seq_unique [where f = "dumps_sorted E" and cl = "CHR '']''", OF _ hd _ e])
    show "CHR '']'' = CHR '']'' \<or> CHR '']'' = CHR ''}''" by simp
  next
    fix x y s1 s2
    assume "x \<in> set xs" "closing s1" "closing s2" "dumps_sorted E x @ s1 = dumps_sorted E y @ s2"
    then show "canon x = canon y \<and> s1 = s2" by (rule JList.IH)
  qed
  with v2 show ?case by simp
next
  case (JDict kvs)
  from fp JDict.prems(3) have k: "kind (JDict kvs) = kind v2" by (rule dumps_same_kind)
  then obtain kvs' where v2: "v2 = JDict kvs'" by (cases v2) (simp_all split: if_splits)
  let ?f = "\<lambda>kv. encode_basestring (fst kv) @ '': '' @ dumps_sorted E (snd kv)"
  let ?n = "\<lambda>kv. (fst kv, canon (snd kv))"
  from v2 JDict.prems have e: "join '', '' (map ?f (sort_key fst kvs)) @ CHR ''}'' # r1 =
                              join '', '' (map ?f (sort_key fst kvs')) @ CHR ''}'' # r2" by simp
  have hd: "?f y \<noteq> [] \<and> hd (?f y) \<noteq> CHR ''}''" for y
    by (simp add: encode_basestring_def)
  have "map ?n (sort_key fst kvs) = map ?n (sort_key fst kvs') \<and> r1 = r2"
  proof (rule seq_unique [where f = ?f and cl = "CHR ''}''", OF _ hd _ e])
    show "CHR ''}'' = CHR '']'' \<or> CHR ''}'' = CHR ''}''" by simp
  next
    fix x y s1 s2
    assume x: "x \<in> set (sort_key fst kvs)" and c: "closing s1" "closing s2"
      and eq: "?f x @ s1 = ?f y @ s2"
    from eq have "encode_basestring (fst x) @ ('': '' @ dumps_sorted E (snd x) @ s1) =
                  encode_basestring (fst y) @ ('': '' @ dumps_sorted E (snd y) @ s2)" by simp
    then have "fst x = fst y \<and> '': '' @ dumps_sorted E (snd x) @ s1 = '': '' @ dumps_sorted E (snd y) @ s2"
      by (rule encode_unique)
    then have key: "fst x = fst y"
      and val: "dumps_sorted E (snd x) @ s1 = dumps_sorted E (snd y) @ s2" by simp_all
    from x have "x \<in> set kvs" by simp
    moreover have "snd x \<in> Basic_BNFs.snds x" by (cases x) simp
    ultimately have "canon (snd x) = canon (snd y) \<and> s1 = s2"
      using c val by (rule JDict.IH)
    with key show "?n x = ?n y \<and> s1 = s2" by simp
  qed
  with v2 show ?case by simp
qed

lemma body_text_unique:
  assumes "float_printer E" "body_text E b1 = body_text E b2"
  shows "canon_body b1 = canon_body b2"
proof -
  have e: "body_text E b = [] \<longleftrightarrow> canon_body b = None" for b
    by (auto simp: body_text_def canon_body_def split: option.splits)
  show ?thesis
  proof (cases "body_text E b1 = []")
    case True
    with assms(2) e [of b1] e [of b2] show ?thesis by simp
  next
    case False
    with assms(2) obtain d1 d2 where b: "b1 = Some d1" "b2 = Some d2" "d1 \<noteq> []" "d2 \<noteq> []"
      by (auto simp: body_text_def split: option.splits if_splits)
    with assms(2) have "dumps_sorted E (JDict d1) @ [] = dumps_sorted E (JDict d2) @ []"
      by (simp add: body_text_def del: dumps_sorted.simps)
    with assms(1) have "canon (JDict d1) = canon (JDict d2) \<and> ([]::string) = []"
      by (intro dumps_unique closing_cases)
    with b show ?thesis by (simp add: canon_body_def del: canon.simps)
  qed
qed

lemma cache_data_canon:
  assumes "CHR '':'' \<notin> set m1" "CHR '':'' \<notin> set m2" "float_printer E"
  shows "cache_data E m1 e1 b1 = cache_data E m2 e2 b2 \<longleftrightarrow>
         m1 = m2 \<and> e1 = e2 \<and> canon_body b1 = canon_body b2"
proof
  assume "cache_data E m1 e1 b1 = cache_data E m2 e2 b2"
  with assms have "m1 = m2 \<and> e1 = e2 \<and> body_text E b1 = body_text E b2"
    by (intro cache_data_unique float_printer_text)
  with assms(3) show "m1 = m2 \<and> e1 = e2 \<and> canon_body b1 = canon_body b2"
    using body_text_unique by blast
next
  assume "m1 = m2 \<and> e1 = e2 \<and> canon_body b1 = canon_body b2"
  then show "cache_data E m1 e1 b1 = cache_data E m2 e2 b2"
    by (simp add: cache_data_def body_text_canon)
qed

subsection \<open>The printer of the small portal\<close>

lemma point_not_int_char: "CHR ''.'' \<notin> int_chars"
  by (simp add: int_chars_def digits_def)

lemma point_number_char: "CHR ''.'' \<in> number_chars"
  by (simp add: number_chars_def)

lemma demo_repr_inj:
  assumes "demo_repr (JFloat x) = demo_repr (JFloat y)"
  shows "x = y"
proof -
  obtain n d where x: "quotient_of x = (n, d)" by (cases "quotient_of x")
  obtain m k where y: "quotient_of y = (m, k)" by (cases "quotient_of y")
  from x have d: "0 < d" by (rule quotient_of_denom_pos)
  from y have k: "0 < k" by (rule quotient_of_denom_pos)
  have "CHR ''.'' \<notin> set (str_int n)" "CHR ''.'' \<notin> set (str_int m)"
    using str_int_int_chars point_not_int_char by blast+
  moreover from assms x y
  have "str_int n @ CHR ''.'' # str_nat (nat d) = str_int m @ CHR ''.'' # str_nat (nat k)"
    by simp
  ultimately have "str_int n = str_int m \<and> str_nat (nat d) = str_nat (nat k)"
    by (rule split_at_colon)
  then have "n = m" "nat d = nat k"
    by (auto dest: str_int_inj str_nat_inj)
  with d k x y have "quotient_of x = quotient_of y" by simp
  then show ?thesis by (rule quotient_of_inject)
qed

lemma float_printer_demo: "float_printer demo_env"
proof -
  have "set (demo_repr (JFloat x)) \<subseteq> number_chars" for x
    using str_int_chars [of "fst (quotient_of x)"]
      str_nat_digits [of "nat (snd (quotient_of x))"] digits_number point_number_char
    by auto
  moreover have "demo_repr (JFloat x) \<noteq> []" for x
    by simp
  moreover have "\<not> set (demo_repr (JFloat x)) \<subseteq> int_chars" for x
    using point_not_int_char by auto
  moreover have "inj (\<lambda>x. demo_repr (JFloat x))"
    by (rule injI) (rule demo_repr_inj)
  ultimately show ?thesis
    by (simp add: float_printer_def demo_env_def del: demo_repr.simps)
qed

subsection \<open>The claim\<close>

text \<open>
  Claim C9 says that distinct triples of method, endpoint and body get distinct keys.
  The key is computed from the body only \<open>if data\<close>, so no body and the empty body share
  their key, whatever the hash; here the hash is even injective.
\<close>

theorem cache_key_collision_counterexample:
  "(''GET'', ''package_list'', None) \<noteq> (''GET'', ''package_list'', Some ([] :: (string \<times> json) list)) \<and>
   get_cache_key demo_env ''GET'' ''package_list'' None =
   get_cache_key demo_env ''GET'' ''package_list'' (Some [])"
  by (simp add: get_cache_key_def cache_data_def body_text_def)

text \<open>
  Claim C9, amended.  The key is a function of method, endpoint and body.  Two bodies
  with the same items in a different order get the same key, and so do no body and the
  empty body.  Conversely, when the methods contain no colon and floats are printed as
  \<open>float_printer\<close> says, the hashed strings of two requests are equal exactly if the
  methods are equal, the endpoints are equal and the bodies are equal up to the order of
  the items of their dicts, at every depth, no body counting as the empty body.  So two
  requests get the same key exactly if they are equal in this sense or the hash maps
  their two different strings to the same digest.
\<close>

theorem cache_key_properties:
  "(distinct (map fst d1) \<and> distinct (map fst d2) \<and> map_of d1 = map_of d2 \<longrightarrow>
      get_cache_key E m e (Some d1) = get_cache_key E m e (Some d2)) \<and>
   get_cache_key E m e None = get_cache_key E m e (Some []) \<and>
   (CHR '':'' \<notin> set m1 \<and> CHR '':'' \<notin> set m2 \<and> float_printer E \<longrightarrow>
      (cache_data E m1 e1 b1 = cache_data E m2 e2 b2 \<longleftrightarrow>
         m1 = m2 \<and> e1 = e2 \<and> canon_body b1 = canon_body b2) \<and>
      (get_cache_key E m1 e1 b1 = get_cache_key E m2 e2 b2 \<longleftrightarrow>
         (m1 = m2 \<and> e1 = e2 \<and> canon_body b1 = canon_body b2) \<or>
         (cache_data E m1 e1 b1 \<noteq> cache_data E m2 e2 b2 \<and>
          md5_hexdigest E (cache_data E m1 e1 b1) = md5_hexdigest E (cache_data E m2 e2 b2))))"
proof (intro conjI impI)
  assume a: "distinct (map fst d1) \<and> distinct (map fst d2) \<and> map_of d1 = map_of d2"
  then have "sort_key fst d1 = sort_key fst d2"
    by (simp add: sort_key_fst_unique)
  moreover from a have "d1 = [] \<longleftrightarrow> d2 = []"
    by (metis map_of_eq_empty_iff)
  ultimately show "get_cache_key E m e (Some d1) = get_cache_key E m e (Some d2)"
    by (simp add: get_cache_key_def cache_data_def body_text_def)
next
  show "get_cache_key E m e None = get_cache_key E m e (Some [])"
    by (simp add: get_cache_key_def cache_data_def body_text_def)
next
  assume c: "CHR '':'' \<notin> set m1 \<and> CHR '':'' \<notin> set m2 \<and> float_printer E"
  show d: "cache_data E m1 e1 b1 = cache_data E m2 e2 b2 \<longleftrightarrow>
      m1 = m2 \<and> e1 = e2 \<and> canon_body b1 = canon_body b2"
    using c by (intro cache_data_canon) simp_all
  show "get_cache_key E m1 e1 b1 = get_cache_key E m2 e2 b2 \<longleftrightarrow>
         (m1 = m2 \<and> e1 = e2 \<and> canon_body b1 = canon_body b2) \<or>
         (cache_data E m1 e1 b1 \<noteq> cache_data E m2 e2 b2 \<and>
          md5_hexdigest E (cache_data E m1 e1 b1) = md5_hexdigest E (cache_data E m2 e2 b2))"
    unfolding get_cache_key_def using d by auto
qed

theorem cache_key_properties_witness:
  "get_cache_key demo_env ''POST'' ''package_search''
     (Some [(''q'', JStr ''water''), (''rows'', JInt 5)]) =
   get_cache_key demo_env ''POST'' ''package_search''
     (Some [(''rows'', JInt 5), (''q'', JStr ''water'')]) \<and>
   get_cache_key demo_env ''GET'' ''status_show'' None \<noteq>
   get_cache_key demo_env ''GET'' ''package_list'' None \<and>
   get_cache_key demo_env ''POST'' ''package_search''
     (Some [(''q'', JStr ''water''),
            (''box'', JDict [(''w'', JFloat (1 / 2)), (''e'', JFloat 2)])]) =
   get_cache_key demo_env ''POST'' ''package_search''
     (Some [(''box'', JDict [(''e'', JFloat 2), (''w'', JFloat (1 / 2))]),
            (''q'', JStr ''water'')]) \<and>
   get_cache_key demo_env ''POST'' ''package_search'' (Some [(''q'', JStr ''water'')]) \<noteq>
   get_cache_key demo_env ''POST'' ''package_search'' (Some [(''q'', JStr ''fire'')])"
proof -
  have md: "md5_hexdigest demo_env x = x" for x
    by (simp add: demo_env_def)
  have m: "map_of [(''q'', JStr ''water''), (''rows'', JInt 5)] =
           map_of [(''rows'', JInt 5), (''q'', JStr ''water'')]"
    by (auto simp: fun_eq_iff)
  have same: "canon_body (Some [(''q'', JStr ''water''),
                 (''box'', JDict [(''w'', JFloat (1 / 2)), (''e'', JFloat 2)])]) =
              canon_body (Some [(''box'', JDict [(''e'', JFloat 2), (''w'', JFloat (1 / 2))]),
                 (''q'', JStr ''water'')])"
    by code_simp
  have other: "canon_body (Some [(''q'', JStr ''water'')]) \<noteq> canon_body (Some [(''q'', JStr ''fire'')])"
    by code_simp
  from cache_key_properties [where E = demo_env and m = "''POST''" and e = "''package_search''"
      and ?d1.0 = "[(''q'', JStr ''water''), (''rows'', JInt 5)]"
      and ?d2.0 = "[(''rows'', JInt 5), (''q'', JStr ''water'')]"
      and ?m1.0 = "''GET''" and ?m2.0 = "''GET''"
      and ?e1.0 = "''status_show''" and ?e2.0 = "''package_list''"
      and ?b1.0 = None and ?b2.0 = None]
  have 1: "get_cache_key demo_env ''POST'' ''package_search''
             (Some [(''q'', JStr ''water''), (''rows'', JInt 5)]) =
           get_cache_key demo_env ''POST'' ''package_search''
             (Some [(''rows'', JInt 5), (''q'', JStr ''water'')])"
    and 2: "get_cache_key demo_env ''GET'' ''status_show'' None \<noteq>
            get_cache_key demo_env ''GET'' ''package_list'' None"
    using m float_printer_demo by (simp_all add: md)
  from cache_key_properties [where E = demo_env
      and ?m1.0 = "''POST''" and ?m2.0 = "''POST''"
      and ?e1.0 = "''package_search''" and ?e2.0 = "''package_search''"
      and ?b1.0 = "Some [(''q'', JStr ''water''),
                         (''box'', JDict [(''w'', JFloat (1 / 2)), (''e'', JFloat 2)])]"
      and ?b2.0 = "Some [(''box'', JDict [(''e'', JFloat 2), (''w'', JFloat (1 / 2))]),
                         (''q'', JStr ''water'')]"]
  have 3: "get_cache_key demo_env ''POST'' ''package_search''
     (Some [(''q'', JStr ''water''),
            (''box'', JDict [(''w'', JFloat (1 / 2)), (''e'', JFloat 2)])]) =
   get_cache_key demo_env ''POST'' ''package_search''
     (Some [(''box'', JDict [(''e'', JFloat 2), (''w'', JFloat (1 / 2))]),
            (''q'', JStr ''water'')])"
    using same float_printer_demo by (simp add: md del: canon.simps)
  from cache_key_properties [where E = demo_env
      and ?m1.0 = "''POST''" and ?m2.0 = "''POST''"
      and ?e1.0 = "''package_search''" and ?e2.0 = "''package_search''"
      and ?b1.0 = "Some [(''q'', JStr ''water'')]"
      and ?b2.0 = "Some [(''q'', JStr ''fire'')]"]
  have 4: "get_cache_key demo_env ''POST'' ''package_search'' (Some [(''q'', JStr ''water'')]) \<noteq>
   get_cache_key demo_env ''POST'' ''package_search'' (Some [(''q'', JStr ''fire'')])"
    using other float_printer_demo by (simp add: md del: canon.simps)
  from 1 2 3 4 show ?thesis by (intro conjI)
qed

section \<open>The range of the quality scores\<close>

lemma count_present_le: "count_present d fs = Inr n \<Longrightarrow> n \<le> length fs"
proof (induction fs arbitrary: n)
  case Nil
  then show ?case by simp
next
  case (Cons f fs)
  then show ?case by (fastforce simp: ebind_Inr split: if_splits)
qed

lemma format_scores_range: "format_scores E rs = Inr fs \<Longrightarrow> \<forall>x\<in>set fs. in_range (JInt x)"
proof (induction rs arbitrary: fs)
  case Nil
  then show ?case by simp
next
  case (Cons r rs)
  then show ?case by (fastforce simp: ebind_Inr split: if_splits)
qed

lemma in_range_num: "in_range x \<Longrightarrow> 0 \<le> num_value x \<and> num_value x \<le> 100"
  by (cases x) simp_all

lemma sum_bounds:
  "\<forall>x\<in>set xs. in_range x \<Longrightarrow>
   0 \<le> sum_list (map num_value xs) \<and> sum_list (map num_value xs) \<le> 100 * of_nat (length xs)"
proof (induction xs)
  case Nil
  then show ?case by simp
next
  case (Cons x xs)
  then have "0 \<le> num_value x" "num_value x \<le> 100" by (simp_all add: in_range_num)
  with Cons show ?case by (simp add: algebra_simps)
qed

lemma mean_in_range: "\<forall>x\<in>set xs. in_range x \<Longrightarrow> in_range (mean xs)"
proof (cases "xs = []")
  case True
  then show ?thesis by (simp add: mean_def)
next
  case False
  assume "\<forall>x\<in>set xs. in_range x"
  then have b: "0 \<le> sum_list (map num_value xs)"
      "sum_list (map num_value xs) \<le> 100 * of_nat (length xs)"
    using sum_bounds by blast+
  from False have n: "(0::rat) < of_nat (length xs)" by simp
  from b n have "0 \<le> sum_list (map num_value xs) / of_nat (length xs)" by simp
  moreover from b n have "sum_list (map num_value xs) / of_nat (length xs) \<le> 100"
    by (simp add: pos_divide_le_eq)
  ultimately show ?thesis using False by (simp add: mean_def)
qed

lemma ratio_in_range: "n \<le> m \<Longrightarrow> 0 < m \<Longrightarrow> in_range (JFloat ((of_nat n / of_nat m) * 100))"
proof -
  assume nm: "n \<le> m" and m: "0 < m"
  define q :: rat where "q = of_nat n / of_nat m"
  from nm m have "(of_nat n :: rat) \<le> of_nat m" "(0::rat) < of_nat m" by simp_all
  then have "0 \<le> q" "q \<le> 1" by (simp_all add: q_def pos_divide_le_eq)
  then have "0 \<le> q * 100 \<and> q * 100 \<le> 100" by simp
  then show ?thesis by (simp add: q_def)
qed

lemma good_tally_add:
  "good_tally t \<Longrightarrow> in_range sc \<Longrightarrow> map_of d ''score'' = Some sc \<Longrightarrow>
   good_tally (AList.update k (JDict d) (fst t), snd t @ [sc])"
  by (auto simp: good_tally_def update_conv' scored_def)

lemma completeness_good: "good_tally t \<Longrightarrow> completeness dataset t = Inr t' \<Longrightarrow> good_tally t'"
proof -
  assume g: "good_tally t" and c: "completeness dataset t = Inr t'"
  from c obtain n where n: "count_present dataset required_fields = Inr n"
    and t': "t' = (AList.update ''completeness''
                 (JDict [(''score'', JFloat ((of_nat n / of_nat (length required_fields)) * 100)),
                         (''required_fields'', JList (map JStr required_fields)),
                         (''present_fields'', JInt (int n))]) (fst t),
               snd t @ [JFloat ((of_nat n / of_nat (length required_fields)) * 100)])"
    by (auto simp: completeness_def ebind_Inr Let_def)
  from n have "n \<le> length required_fields" by (rule count_present_le)
  then have "in_range (JFloat ((of_nat n / of_nat (length required_fields)) * 100))"
    by (intro ratio_in_range) (simp_all add: required_fields_def)
  with g show ?thesis unfolding t' by (intro good_tally_add) simp_all
qed

lemma format_validation_good:
  "good_tally t \<Longrightarrow> format_validation E dataset t = Inr t' \<Longrightarrow> good_tally t'"
proof -
  assume g: "good_tally t" and c: "format_validation E dataset t = Inr t'"
  from c obtain rs fs where fs: "format_scores E rs = Inr fs"
    and t': "t' = (AList.update ''format_validation''
                     (JDict [(''score'', mean (map JInt fs)),
                             (''resource_count'', JInt (int (length rs))),
                             (''valid_formats'', JList (map JStr valid_formats))]) (fst t),
                   snd t @ [mean (map JInt fs)])"
    by (auto simp: format_validation_def ebind_Inr Let_def)
  from fs have "\<forall>x\<in>set (map JInt fs). in_range x"
    using format_scores_range by fastforce
  then have "in_range (mean (map JInt fs))" by (rule mean_in_range)
  with g show ?thesis unfolding t' by (intro good_tally_add) simp_all
qed

lemma schema_compliance_good:
  "good_tally t \<Longrightarrow> schema_compliance dataset t = Inr t' \<Longrightarrow> good_tally t'"
proof -
  assume g: "good_tally t" and c: "schema_compliance dataset t = Inr t'"
  from c obtain a b c d e where
    t': "t' = (AList.update ''schema_compliance''
                 (JDict [(''score'', JFloat ((of_nat (length (filter id [a, b, c, d, e])) /
                      of_nat (length [a, b, c, d, e])) * 100)),
                         (''has_license'', JBool a),
                         (''has_author'', JBool b),
                         (''has_maintainer'', JBool c),
                         (''has_temporal_coverage'', JBool d),
                         (''has_spatial_coverage'', JBool e)]) (fst t),
               snd t @ [JFloat ((of_nat (length (filter id [a, b, c, d, e])) /
                      of_nat (length [a, b, c, d, e])) * 100)])"
    by (auto simp: schema_compliance_def ebind_Inr Let_def)
  have "in_range (JFloat ((of_nat (length (filter id [a, b, c, d, e])) /
                      of_nat (length [a, b, c, d, e])) * 100))"
    by (intro ratio_in_range length_filter_le) simp
  with g show ?thesis unfolding t' by (intro good_tally_add) simp_all
qed

text \<open>
  Claim C10.  Whenever \<open>check_data_quality\<close> returns a report, every entry of its
  \<open>checks\<close> has a score between 0 and 100, and so has \<open>overall_score\<close>; when none of the
  three known checks is requested, \<open>checks\<close> is empty and \<open>overall_score\<close> is the integer 0.
  Python computes the scores in floating point; here they are the exact quotients.
\<close>

theorem quality_scores_in_range:
  "check_data_quality E dataset_id checks sample_size s = (Inr report, s') \<Longrightarrow>
   requested = (case checks of
                  None \<Rightarrow> [''completeness'', ''format_validation'', ''schema_compliance'']
                | Some cs \<Rightarrow> cs) \<Longrightarrow>
   (\<exists>r chk overall.
      report = JDict r \<and> map_of r ''checks'' = Some (JDict chk) \<and>
      (\<forall>check \<in> fst ` set chk. \<exists>sc. check_score report check = Some sc \<and> in_range sc) \<and>
      map_of r ''overall_score'' = Some overall \<and> in_range overall \<and>
      (set requested \<inter> {''completeness'', ''format_validation'', ''schema_compliance''} = {} \<longrightarrow>
         chk = [] \<and> overall = JInt 0))"
proof -
  assume run: "check_data_quality E dataset_id checks sample_size s = (Inr report, s')"
    and req: "requested = (case checks of
                  None \<Rightarrow> [''completeness'', ''format_validation'', ''schema_compliance'']
                | Some cs \<Rightarrow> cs)"
  from run req obtain dataset :: json and s1 :: state where
    rep: "quality_report E dataset_id requested (clock (snd s1)) dataset = Inr report"
    by (auto simp: check_data_quality_def sbind_def Let_def split: prod.splits sum.splits)
  let ?t0 = "([], []) :: tally"
  have g0: "good_tally ?t0" by (simp add: good_tally_def)
  from rep obtain dataset_name t1 t2 t3 where
    t1: "(if ''completeness'' \<in> set requested then completeness dataset ?t0 else Inr ?t0) = Inr t1"
    and t2: "(if ''format_validation'' \<in> set requested then format_validation E dataset t1 else Inr t1) = Inr t2"
    and t3: "(if ''schema_compliance'' \<in> set requested then schema_compliance dataset t2 else Inr t2) = Inr t3"
    and report: "report = JDict (AList.update ''overall_score'' (mean (snd t3))
              [(''dataset_id'', JStr dataset_id),
               (''dataset_name'', dataset_name),
               (''timestamp'', JStr (isoformat E (clock (snd s1)))),
               (''checks'', JDict (fst t3)),
               (''overall_score'', JInt 0)])"
    by (auto simp: quality_report_def ebind_Inr)
  from g0 t1 have g1: "good_tally t1"
    by (auto split: if_splits dest: completeness_good)
  from g1 t2 have g2: "good_tally t2"
    by (auto split: if_splits dest: format_validation_good)
  from g2 t3 have g3: "good_tally t3"
    by (auto split: if_splits dest: schema_compliance_good)
  from g3 have overall: "in_range (mean (snd t3))"
    by (intro mean_in_range) (simp add: good_tally_def)
  have scores: "\<exists>sc. check_score report check = Some sc \<and> in_range sc"
    if "check \<in> fst ` set (fst t3)" for check
  proof -
    from that obtain v where v: "map_of (fst t3) check = Some v"
      by (metis map_of_eq_None_iff not_Some_eq)
    with g3 have "scored v" by (simp add: good_tally_def)
    with v show ?thesis
      by (auto simp: report check_score_def scored_def split: json.splits option.splits)
  qed
  have none: "fst t3 = [] \<and> mean (snd t3) = JInt 0"
    if "set requested \<inter> {''completeness'', ''format_validation'', ''schema_compliance''} = {}"
    using that t1 t2 t3 by (auto simp: mean_def)
  show ?thesis
    using overall scores none by (simp add: report)
qed

text \<open>Dataset \<open>Y\<close>, with all checks and with a check that does not exist.\<close>

lemma demo_quality_pure:
  "quality_report demo_env ''Y'' [''completeness'', ''format_validation'', ''schema_compliance'']
     1001 demo_dataset_y =
     Inr (JDict [(''dataset_id'', JStr ''Y''),
                 (''dataset_name'', JStr ''y''),
                 (''timestamp'', JStr ''2024-01-01T00:00:00''),
                 (''checks'', JDict
                    [(''completeness'', JDict [(''score'', JFloat 100),
                        (''required_fields'', JList (map JStr required_fields)),
                        (''present_fields'', JInt 5)]),
                     (''format_validation'', JDict [(''score'', JFloat 50),
                        (''resource_count'', JInt 2),
                        (''valid_formats'', JList (map JStr valid_formats))]),
                     (''schema_compliance'', JDict [(''score'', JFloat 0),
                        (''has_license'', JBool False),
                        (''has_author'', JBool False),
                        (''has_maintainer'', JBool False),
                        (''has_temporal_coverage'', JBool False),
                        (''has_spatial_coverage'', JBool False)])]),
                 (''overall_score'', JFloat 50)])"
  by code_simp

lemma demo_quality_run:
  "check_data_quality demo_env ''Y'' None 100 (demo_client, demo_world) =
     (quality_report demo_env ''Y'' [''completeness'', ''format_validation'', ''schema_compliance'']
        1001 demo_dataset_y,
      (demo_client\<lparr>cache := (cache demo_client)(''GET:package_show?id=Y:'' \<mapsto>
           \<lparr>entry_timestamp = 1001, entry_data = demo_dataset_y\<rparr>)\<rparr>,
       \<lparr>clock = 1001, sent = [the_request demo_env demo_client ''GET'' ''package_show?id=Y'' None]\<rparr>))"
  by (simp add: check_data_quality_def sbind_def demo_fetch_y)
theorem quality_scores_in_range_witness:
  "fst (check_data_quality demo_env ''Y'' None 100 (demo_client, demo_world)) = Inr demo_report \<and>
   (\<exists>sc. check_score demo_report ''format_validation'' = Some sc \<and> in_range sc) \<and>
   (\<exists>r. fst (check_data_quality demo_env ''Y'' (Some [''licence'']) 100 (demo_client, demo_world)) =
          Inr (JDict r) \<and> map_of r ''overall_score'' = Some (JInt 0))"
proof -
  let ?all = "check_data_quality demo_env ''Y'' None 100 (demo_client, demo_world)"
  let ?none = "check_data_quality demo_env ''Y'' (Some [''licence'']) 100 (demo_client, demo_world)"
  have a: "fst ?all = Inr demo_report"
    by (simp add: demo_quality_run demo_quality_pure demo_report_def)
  then have all: "?all = (Inr demo_report, snd ?all)"
    by (metis prod.collapse)
  have "\<exists>report. fst ?none = Inr report"
    by (simp add: check_data_quality_def sbind_def demo_fetch_y)
       (simp add: quality_report_def demo_dataset_y_def ebind_def)
  then obtain report where none: "?none = (Inr report, snd ?none)"
    by (metis prod.collapse)
  from quality_scores_in_range [OF all refl]
  have 1: "\<exists>sc. check_score demo_report ''format_validation'' = Some sc \<and> in_range sc"
    by (simp add: demo_report_def)
  from quality_scores_in_range [OF none refl]
  have 2: "\<exists>r. report = JDict r \<and> map_of r ''overall_score'' = Some (JInt 0)"
    by auto
  from a 1 2 none show ?thesis by (metis fst_conv)
qed

end
